theory Spec2Isabelle
  imports Main
begin

section \<open>Strings of the host language\<close>

text \<open>
  A JavaScript string is a sequence of code units. It is modelled as a HOL \<open>string\<close>;
  one \<open>char\<close> stands for one code unit in the range U+0000 to U+00FF. The loops of
  \<^verbatim>\<open>JSXTransformer.ts\<close> compare characters with the space, the tab, the newline and the
  hyphen only; the built-ins \<^verbatim>\<open>JSON.stringify\<close>, \<^verbatim>\<open>\s\<close> and \<^verbatim>\<open>toLowerCase\<close> are modelled
  on that range.
\<close>

definition newline :: char where
  "newline = CHR 0x0A"

definition tab :: char where
  "tab = CHR 0x09"

definition space :: char where
  "space = CHR 0x20"

definition dquote :: char where
  "dquote = CHR 0x22"

definition squote :: char where
  "squote = CHR 0x27"

definition backslash :: char where
  "backslash = CHR 0x5C"

text \<open>
  The built-in \<^verbatim>\<open>JSON.stringify\<close> on a string: the text between double quotes, where the
  double quote, the backslash and the control characters below U+0020 are escaped
  (\<^verbatim>\<open>QuoteJSONString\<close> of ECMA-262).
\<close>

definition hexDigit :: "nat \<Rightarrow> char" where
  "hexDigit n = (if n < 10 then char_of (48 + n) else char_of (87 + n))"

definition quoteJSONChar :: "char \<Rightarrow> string" where
  "quoteJSONChar c =
     (if c = dquote then [backslash, dquote]
      else if c = backslash then [backslash, backslash]
      else if c = CHR 0x08 then [backslash, CHR ''b'']
      else if c = tab then [backslash, CHR ''t'']
      else if c = newline then [backslash, CHR ''n'']
      else if c = CHR 0x0C then [backslash, CHR ''f'']
      else if c = CHR 0x0D then [backslash, CHR ''r'']
      else if (of_char c :: nat) < 32
        then [backslash, CHR ''u'', CHR ''0'', CHR ''0'',
              hexDigit ((of_char c :: nat) div 16), hexDigit ((of_char c :: nat) mod 16)]
      else [c])"

definition JSON_stringify :: "string \<Rightarrow> string" where
  "JSON_stringify s = [dquote] @ concat (map quoteJSONChar s) @ [dquote]"

text \<open>
  The character class \<^verbatim>\<open>\s\<close> of a regular expression, on the code units below U+0100:
  tab, line feed, vertical tab, form feed, carriage return, space and no-break space.
\<close>

definition isWhiteSpace :: "char \<Rightarrow> bool" where
  "isWhiteSpace c =
     (c = tab \<or> c = newline \<or> c = CHR 0x0B \<or> c = CHR 0x0C \<or> c = CHR 0x0D
      \<or> c = space \<or> c = CHR 0xA0)"

text \<open>
  \<^verbatim>\<open>text.replace(/\n\s+/g, " ")\<close>: the text is scanned from the left; where the
  pattern matches (a newline, then the longest run of one or more white-space characters)
  the match is replaced by one space and the scan goes on after the match; where it does
  not match, the character is kept and the scan goes on at the next character.
\<close>

definition matchNewlineSpaces :: "string \<Rightarrow> string option" where
  "matchNewlineSpaces s =
     (case s of
        [] \<Rightarrow> None
      | c # cs \<Rightarrow>
          if c = newline \<and> takeWhile isWhiteSpace cs \<noteq> []
          then Some (dropWhile isWhiteSpace cs) else None)"

function replaceNewlineSpaces :: "string \<Rightarrow> string" where
  "replaceNewlineSpaces [] = []"
| "replaceNewlineSpaces (c # cs) =
     (case matchNewlineSpaces (c # cs) of
        Some rest \<Rightarrow> space # replaceNewlineSpaces rest
      | None \<Rightarrow> c # replaceNewlineSpaces cs)"
  by pat_completeness auto
termination
proof (relation "measure length")
  show "wf (measure length)" by simp
next
  fix c :: char and cs rest :: string
  assume "matchNewlineSpaces (c # cs) = Some rest"
  then have "rest = dropWhile isWhiteSpace cs"
    by (auto simp: matchNewlineSpaces_def split: if_splits)
  then have "length rest \<le> length cs"
    by (simp add: length_dropWhile_le)
  then show "(rest, c # cs) \<in> measure length" by simp
next
  fix c :: char and cs :: string
  show "(cs, c # cs) \<in> measure length" by simp
qed

section \<open>The text formatters of JSXTransformer.ts\<close>

text \<open>
  \<^verbatim>\<open>formatJSXTextLiteral\<close>: the loop over the characters of the text carries
  \<open>result\<close>, \<open>whitespace\<close>, \<open>isInInitialLineWhitespace\<close> and \<open>seenNonWhitespace\<close>.
\<close>

fun formatJSXTextLiteral_loop ::
  "string \<Rightarrow> string \<Rightarrow> string \<Rightarrow> bool \<Rightarrow> bool \<Rightarrow> string \<times> string \<times> bool \<times> bool" where
  "formatJSXTextLiteral_loop [] result whitespace isInInitialLineWhitespace seenNonWhitespace =
     (result, whitespace, isInInitialLineWhitespace, seenNonWhitespace)"
| "formatJSXTextLiteral_loop (c # cs) result whitespace isInInitialLineWhitespace seenNonWhitespace =
     (if c = space \<or> c = tab then
        (if \<not> isInInitialLineWhitespace
         then formatJSXTextLiteral_loop cs result (whitespace @ [c])
                isInInitialLineWhitespace seenNonWhitespace
         else formatJSXTextLiteral_loop cs result whitespace
                isInInitialLineWhitespace seenNonWhitespace)
      else if c = newline then
        formatJSXTextLiteral_loop cs result [] True seenNonWhitespace
      else
        formatJSXTextLiteral_loop cs
          ((if seenNonWhitespace \<and> isInInitialLineWhitespace then result @ [space] else result)
             @ whitespace @ [c])
          [] False True)"

definition formatJSXTextLiteral_content :: "string \<Rightarrow> string" where
  "formatJSXTextLiteral_content text =
     (case formatJSXTextLiteral_loop text [] [] False False of
        (result, whitespace, isInInitialLineWhitespace, seenNonWhitespace) \<Rightarrow>
          if \<not> isInInitialLineWhitespace then result @ whitespace else result)"

definition formatJSXTextLiteral :: "string \<Rightarrow> string" where
  "formatJSXTextLiteral text = JSON_stringify (formatJSXTextLiteral_content text)"

text \<open>
  \<^verbatim>\<open>formatJSXTextReplacement\<close>: the loop carries \<open>numNewlines\<close> and \<open>numSpaces\<close>;
  \<^verbatim>\<open>"\n".repeat(n)\<close> is \<open>replicate n newline\<close>.
\<close>

fun formatJSXTextReplacement_loop :: "string \<Rightarrow> nat \<Rightarrow> nat \<Rightarrow> nat \<times> nat" where
  "formatJSXTextReplacement_loop [] numNewlines numSpaces = (numNewlines, numSpaces)"
| "formatJSXTextReplacement_loop (c # cs) numNewlines numSpaces =
     (if c = newline then formatJSXTextReplacement_loop cs (numNewlines + 1) 0
      else if c = space then formatJSXTextReplacement_loop cs numNewlines (numSpaces + 1)
      else formatJSXTextReplacement_loop cs numNewlines numSpaces)"

definition formatJSXTextReplacement :: "string \<Rightarrow> string" where
  "formatJSXTextReplacement text =
     (case formatJSXTextReplacement_loop text 0 0 of
        (numNewlines, numSpaces) \<Rightarrow> replicate numNewlines newline @ replicate numSpaces space)"

definition formatJSXStringValueLiteral :: "string \<Rightarrow> string" where
  "formatJSXStringValueLiteral text = JSON_stringify (replaceNewlineSpaces text)"

section \<open>Tokens, the token processor and the collaborators\<close>

text \<open>
  Modelled from the spec: the token kinds (\<^verbatim>\<open>sucrase-babylon/tokenizer/types\<close> is not
  part of the sources). The spec's data model names the tag-open marker, the tag-close marker,
  the self-close slash, the name, the equals sign, the two braces and the raw text; the
  remaining kinds stand for tokens of the host language. \<open>label\<close> is the text by which
  \<^verbatim>\<open>matchesAtIndex\<close> names a kind: \<^verbatim>\<open>"{"\<close> is the brace-open token and \<^verbatim>\<open>"/"\<close> the
  self-close slash (spec, section 4.2).
\<close>

datatype tt =
    tt_jsxTagStart | tt_jsxTagEnd | tt_slash | tt_jsxName | tt_eq | tt_braceL | tt_braceR
  | tt_jsxText | tt_string | tt_dot | tt_name | tt_ellipsis | tt_eof

fun label :: "tt \<Rightarrow> string" where
  "label tt_jsxTagStart = ''jsxTagStart''"
| "label tt_jsxTagEnd = ''jsxTagEnd''"
| "label tt_slash = ''/''"
| "label tt_jsxName = ''jsxName''"
| "label tt_eq = ''=''"
| "label tt_braceL = ''{''"
| "label tt_braceR = ''}''"
| "label tt_jsxText = ''jsxText''"
| "label tt_string = ''string''"
| "label tt_dot = ''.''"
| "label tt_name = ''name''"
| "label tt_ellipsis = ''...''"
| "label tt_eof = ''eof''"

text \<open>
  Modelled from the spec: a token carries its kind, its source range and its literal text
  (spec, section 3).
\<close>

record token =
  tok_type :: tt
  tok_start :: nat
  tok_end :: nat
  tok_value :: string

text \<open>
  The two \<^verbatim>\<open>throw new Error(...)\<close> of the transformer carry their message; \<open>TypeError\<close>
  is what the runtime raises when a property of \<^verbatim>\<open>undefined\<close> is read (the current
  token past the end of the buffer, the first character of an empty string).
\<close>

datatype error = Error string | TypeError

datatype 'a result = Done 'a | Raised error | OutOfFuel

definition andThen :: "'a result \<Rightarrow> ('a \<Rightarrow> 'b result) \<Rightarrow> 'b result" where
  "andThen r f = (case r of Done x \<Rightarrow> f x | Raised e \<Rightarrow> Raised e | OutOfFuel \<Rightarrow> OutOfFuel)"

text \<open>
  The state of one pass: the fields of the token processor (\<open>code\<close>, \<open>tokens\<close>,
  \<open>resultCode\<close>, \<open>tokenIndex\<close>), the fields of \<^verbatim>\<open>JSXTransformer\<close>
  (\<open>lastLineNumber\<close>, \<open>lastIndex\<close>, \<open>filenameVarName\<close>, \<open>filePath\<close>) and the state of
  the name manager, whose type is left open.
\<close>

record 'n state =
  code :: string
  tokens :: "token list"
  resultCode :: string
  tokenIndex :: nat
  lastLineNumber :: nat
  lastIndex :: nat
  filenameVarName :: "string option"
  filePath :: "string option"
  nameManager :: 'n

text \<open>
  The collaborators the transformer calls and that are not part of the sources are parameters
  of the model: \<^verbatim>\<open>rootTransformer.processToken\<close>, \<^verbatim>\<open>rootTransformer.processBalancedCode\<close>
  (both work on the whole state of the pass, since they call the transformer again for
  nested tags), \<^verbatim>\<open>nameManager.claimFreeName\<close> and
  \<^verbatim>\<open>importProcessor.getIdentifierReplacement\<close>.
\<close>

record 'n collaborators =
  processToken :: "'n state \<Rightarrow> 'n state result"
  processBalancedCode :: "'n state \<Rightarrow> 'n state result"
  claimFreeName :: "string \<Rightarrow> 'n \<Rightarrow> string \<times> 'n"
  getIdentifierReplacement :: "string \<Rightarrow> string option"

text \<open>
  Modelled from the spec: the operations of the token processor (\<^verbatim>\<open>TokenProcessor.ts\<close>
  is not part of the sources), as section 6 of the spec lists them: test whether the next
  tokens match a sequence of kinds, at the cursor or at a given index; query the current
  token; replace the current token's emitted text and advance; copy the current token's text
  unchanged and advance; append text. A test past the end of the buffer fails; the current
  token past the end is \<^verbatim>\<open>undefined\<close>. The text of a token is the slice of \<open>code\<close> at its
  range. The white space between tokens is not modelled.
\<close>

fun matchesAtIndex_list :: "token list \<Rightarrow> nat \<Rightarrow> string list \<Rightarrow> bool" where
  "matchesAtIndex_list ts index [] = True"
| "matchesAtIndex_list ts index (l # ls) =
     (index < length ts \<and> label (tok_type (ts ! index)) = l \<and> matchesAtIndex_list ts (Suc index) ls)"

definition matchesAtIndex :: "'n state \<Rightarrow> nat \<Rightarrow> string list \<Rightarrow> bool" where
  "matchesAtIndex s index tagLabels = matchesAtIndex_list (tokens s) index tagLabels"

definition matches1 :: "'n state \<Rightarrow> tt \<Rightarrow> bool" where
  "matches1 s t1 = (tokenIndex s < length (tokens s) \<and> tok_type (tokens s ! tokenIndex s) = t1)"

definition matches2 :: "'n state \<Rightarrow> tt \<Rightarrow> tt \<Rightarrow> bool" where
  "matches2 s t1 t2 =
     (tokenIndex s + 1 < length (tokens s) \<and> tok_type (tokens s ! tokenIndex s) = t1
      \<and> tok_type (tokens s ! (tokenIndex s + 1)) = t2)"

definition currentToken :: "'n state \<Rightarrow> token option" where
  "currentToken s = (if tokenIndex s < length (tokens s) then Some (tokens s ! tokenIndex s) else None)"

definition currentIndex :: "'n state \<Rightarrow> nat" where
  "currentIndex s = tokenIndex s"

definition appendCode :: "string \<Rightarrow> 'n state \<Rightarrow> 'n state" where
  "appendCode text s = s\<lparr>resultCode := resultCode s @ text\<rparr>"

definition replaceToken :: "string \<Rightarrow> 'n state \<Rightarrow> 'n state" where
  "replaceToken newCode s = s\<lparr>resultCode := resultCode s @ newCode, tokenIndex := tokenIndex s + 1\<rparr>"

definition tokenText :: "string \<Rightarrow> token \<Rightarrow> string" where
  "tokenText c t = take (tok_end t - tok_start t) (drop (tok_start t) c)"

definition copyToken :: "'n state \<Rightarrow> 'n state result" where
  "copyToken s =
     (case currentToken s of
        None \<Rightarrow> Raised TypeError
      | Some t \<Rightarrow> Done (replaceToken (tokenText (code s) t) s))"

section \<open>JSXTransformer\<close>

text \<open>The decimal text of a line number, as the template literal prints it.\<close>

function numberToString :: "nat \<Rightarrow> string" where
  "numberToString n =
     (if n < 10 then [char_of (48 + n)]
      else numberToString (n div 10) @ [char_of (48 + n mod 10)])"
  by pat_completeness auto
termination
  by (relation "measure (\<lambda>n. n)") auto

declare numberToString.simps [simp del]

text \<open>\<^verbatim>\<open>getPrefixCode\<close>\<close>

definition getPrefixCode :: "'n state \<Rightarrow> string" where
  "getPrefixCode s =
     (case filenameVarName s of
        None \<Rightarrow> []
      | Some v \<Rightarrow>
          if v = [] then []
          else ''const '' @ v @ '' = ''
               @ JSON_stringify (case filePath s of None \<Rightarrow> [] | Some p \<Rightarrow> p) @ '';'')"

text \<open>
  \<^verbatim>\<open>getLineNumberForIndex\<close>: the loop moves \<open>lastIndex\<close> forward to \<open>index\<close> (or to the end
  of the code) and counts the newlines it passes.
\<close>

function getLineNumberForIndex_loop :: "string \<Rightarrow> nat \<Rightarrow> nat \<Rightarrow> nat \<Rightarrow> nat \<times> nat" where
  "getLineNumberForIndex_loop c index li ln =
     (if li < index \<and> li < length c
      then getLineNumberForIndex_loop c index (li + 1) (if c ! li = newline then ln + 1 else ln)
      else (li, ln))"
  by pat_completeness auto
termination
  by (relation "measure (\<lambda>(c, index, li, ln). min index (length c) - li)") auto

declare getLineNumberForIndex_loop.simps [simp del]

definition getLineNumberForIndex :: "nat \<Rightarrow> 'n state \<Rightarrow> nat \<times> 'n state" where
  "getLineNumberForIndex index s =
     (case getLineNumberForIndex_loop (code s) index (lastIndex s) (lastLineNumber s) of
        (li, ln) \<Rightarrow> (ln, s\<lparr>lastIndex := li, lastLineNumber := ln\<rparr>))"

text \<open>
  The number of times the body of that loop runs, counted along the same recursion.
\<close>

function getLineNumberForIndex_steps :: "string \<Rightarrow> nat \<Rightarrow> nat \<Rightarrow> nat" where
  "getLineNumberForIndex_steps c index li =
     (if li < index \<and> li < length c
      then Suc (getLineNumberForIndex_steps c index (li + 1))
      else 0)"
  by pat_completeness auto
termination
  by (relation "measure (\<lambda>(c, index, li). min index (length c) - li)") auto

declare getLineNumberForIndex_steps.simps [simp del]

text \<open>
  \<^verbatim>\<open>getFilenameVarName\<close>: the test \<^verbatim>\<open>!this.filenameVarName\<close> holds for \<^verbatim>\<open>null\<close> and for the
  empty string.
\<close>

definition getFilenameVarName :: "'n collaborators \<Rightarrow> 'n state \<Rightarrow> string \<times> 'n state" where
  "getFilenameVarName X s =
     (if (case filenameVarName s of None \<Rightarrow> True | Some v \<Rightarrow> v = [])
      then (case claimFreeName X ''_jsxFileName'' (nameManager s) of
              (v, nm) \<Rightarrow> (v, s\<lparr>filenameVarName := Some v, nameManager := nm\<rparr>))
      else (case filenameVarName s of None \<Rightarrow> ([], s) | Some v \<Rightarrow> (v, s)))"

definition devProps :: "string \<Rightarrow> nat \<Rightarrow> string" where
  "devProps fileNameVar lineNumber =
     ''__self: this, __source: {fileName: '' @ fileNameVar @ '', lineNumber: ''
       @ numberToString lineNumber @ ''}''"

definition processStringPropValue :: "'n state \<Rightarrow> 'n state result" where
  "processStringPropValue s =
     (case currentToken s of
        None \<Rightarrow> Raised TypeError
      | Some t \<Rightarrow>
          Done (replaceToken
                  (formatJSXStringValueLiteral (tok_value t) @ formatJSXTextReplacement (tok_value t)) s))"

text \<open>
  The \<^verbatim>\<open>while (true)\<close> loop of \<^verbatim>\<open>processProps\<close>; every turn of a loop of the transformer
  takes one unit of fuel.
\<close>

fun processProps_loop :: "'n collaborators \<Rightarrow> nat \<Rightarrow> 'n state \<Rightarrow> 'n state result" where
  "processProps_loop X 0 s = OutOfFuel"
| "processProps_loop X (Suc n) s =
     (if matches2 s tt_jsxName tt_eq then
        (case currentToken s of
           None \<Rightarrow> Raised TypeError
         | Some t \<Rightarrow>
             andThen (if CHR ''-'' \<in> set (tok_value t)
                      then Done (replaceToken ([squote] @ tok_value t @ [squote]) s)
                      else copyToken s)
               (\<lambda>s1. andThen
                  (if matches1 (replaceToken '': '' s1) tt_braceL
                   then andThen (processBalancedCode X (replaceToken [] (replaceToken '': '' s1)))
                          (\<lambda>s2. Done (replaceToken [] s2))
                   else processStringPropValue (replaceToken '': '' s1))
                  (\<lambda>s3. processProps_loop X n (appendCode '','' s3))))
      else if matches1 s tt_jsxName then
        andThen (copyToken s)
          (\<lambda>s1. processProps_loop X n (appendCode '','' (appendCode '': true'' s1)))
      else if matches1 s tt_braceL then
        andThen (processBalancedCode X (replaceToken [] s))
          (\<lambda>s1. processProps_loop X n (appendCode '','' (replaceToken [] s1)))
      else Done s)"

definition processProps :: "'n collaborators \<Rightarrow> nat \<Rightarrow> nat \<Rightarrow> 'n state \<Rightarrow> 'n state result" where
  "processProps X fuel firstTokenStart s =
     (case getLineNumberForIndex firstTokenStart s of
        (lineNumber, s1) \<Rightarrow>
          (case getFilenameVarName X s1 of
             (fileNameVar, s2) \<Rightarrow>
               if \<not> matches1 s2 tt_jsxName \<and> \<not> matches1 s2 tt_braceL
               then Done (appendCode ('', {'' @ devProps fileNameVar lineNumber @ ''}'') s2)
               else andThen (processProps_loop X fuel (appendCode '', {'' s2))
                      (\<lambda>s3. Done (appendCode ('' '' @ devProps fileNameVar lineNumber @ ''}'') s3))))"

text \<open>
  \<^verbatim>\<open>startsWithLowerCase\<close>: \<^verbatim>\<open>s[0]\<close> of the empty string is \<^verbatim>\<open>undefined\<close>, whose
  \<^verbatim>\<open>toLowerCase\<close> cannot be read. On the code units below U+0100 the built-in
  \<^verbatim>\<open>toLowerCase\<close> moves the letters A to Z and the capital letters U+00C0 to U+00DE (the
  multiplication sign U+00D7 apart) 32 places up and keeps every other code unit.
\<close>

definition toLowerCase :: "char \<Rightarrow> char" where
  "toLowerCase c =
     (if (65 \<le> (of_char c :: nat) \<and> (of_char c :: nat) \<le> 90)
         \<or> (192 \<le> (of_char c :: nat) \<and> (of_char c :: nat) \<le> 222 \<and> (of_char c :: nat) \<noteq> 215)
      then char_of ((of_char c :: nat) + 32) else c)"

definition startsWithLowerCase :: "string \<Rightarrow> bool result" where
  "startsWithLowerCase s =
     (case s of [] \<Rightarrow> Raised TypeError | c # cs \<Rightarrow> Done (c = toLowerCase c))"

text \<open>\<^verbatim>\<open>processTagIntro\<close>: the search for \<open>introEnd\<close>, then the loop over the tokens of the name.\<close>

fun processTagIntro_find :: "nat \<Rightarrow> 'n state \<Rightarrow> nat \<Rightarrow> nat result" where
  "processTagIntro_find 0 s introEnd = OutOfFuel"
| "processTagIntro_find (Suc n) s introEnd =
     (if \<not> matchesAtIndex s (introEnd - 1) [''jsxName'', ''jsxName'']
         \<and> \<not> matchesAtIndex s introEnd [''{'']
         \<and> \<not> matchesAtIndex s introEnd [''jsxTagEnd'']
         \<and> \<not> matchesAtIndex s introEnd [''/'', ''jsxTagEnd'']
      then processTagIntro_find n s (introEnd + 1)
      else Done introEnd)"

fun processTagIntro_loop :: "'n collaborators \<Rightarrow> nat \<Rightarrow> nat \<Rightarrow> 'n state \<Rightarrow> 'n state result" where
  "processTagIntro_loop X 0 introEnd s = OutOfFuel"
| "processTagIntro_loop X (Suc n) introEnd s =
     (if currentIndex s < introEnd
      then andThen (processToken X s) (\<lambda>s1. processTagIntro_loop X n introEnd s1)
      else Done s)"

definition processTagIntro :: "'n collaborators \<Rightarrow> nat \<Rightarrow> 'n state \<Rightarrow> 'n state result" where
  "processTagIntro X fuel s =
     andThen (processTagIntro_find fuel s (currentIndex s + 1))
       (\<lambda>introEnd.
          andThen
            (if introEnd = currentIndex s + 1
             then (case currentToken s of
                     None \<Rightarrow> Raised TypeError
                   | Some t \<Rightarrow>
                       andThen (startsWithLowerCase (tok_value t))
                         (\<lambda>b. Done (if b then replaceToken ([squote] @ tok_value t @ [squote]) s
                                     else s)))
             else Done s)
            (\<lambda>s1. processTagIntro_loop X fuel introEnd s1))"

text \<open>\<^verbatim>\<open>processChildTextElement\<close>; the literal \<^verbatim>\<open>'""'\<close> is two double quotes.\<close>

definition processChildTextElement :: "'n state \<Rightarrow> 'n state result" where
  "processChildTextElement s =
     (case currentToken s of
        None \<Rightarrow> Raised TypeError
      | Some t \<Rightarrow>
          if formatJSXTextLiteral (tok_value t) = [dquote, dquote]
          then Done (replaceToken (formatJSXTextReplacement (tok_value t)) s)
          else Done (replaceToken
                       ('', '' @ formatJSXTextLiteral (tok_value t)
                          @ formatJSXTextReplacement (tok_value t)) s))"

text \<open>
  The loop of \<^verbatim>\<open>processJSXTag\<close> that drops the tokens of the closing tag up to its
  \<open>jsxTagEnd\<close>.
\<close>

fun processJSXTag_skip :: "nat \<Rightarrow> 'n state \<Rightarrow> 'n state result" where
  "processJSXTag_skip 0 s = OutOfFuel"
| "processJSXTag_skip (Suc n) s =
     (if \<not> matches1 s tt_jsxTagEnd then processJSXTag_skip n (replaceToken [] s) else Done s)"

text \<open>
  \<^verbatim>\<open>processChildren\<close> and \<^verbatim>\<open>processJSXTag\<close> call each other; a call of
  \<^verbatim>\<open>processJSXTag\<close> and a turn of the loop of \<^verbatim>\<open>processChildren\<close> take one unit of fuel each.
\<close>

fun processChildren :: "'n collaborators \<Rightarrow> nat \<Rightarrow> 'n state \<Rightarrow> 'n state result"
  and processJSXTag :: "'n collaborators \<Rightarrow> nat \<Rightarrow> 'n state \<Rightarrow> 'n state result" where
  "processChildren X 0 s = OutOfFuel"
| "processChildren X (Suc n) s =
     (if matches2 s tt_jsxTagStart tt_slash then Done s
      else if matches1 s tt_braceL then
        (if matches2 s tt_braceL tt_braceR
         then processChildren X n (replaceToken [] (replaceToken [] s))
         else andThen (processBalancedCode X (replaceToken '', '' s))
                (\<lambda>s1. processChildren X n (replaceToken [] s1)))
      else if matches1 s tt_jsxTagStart then
        andThen (processJSXTag X n (appendCode '', '' s)) (\<lambda>s1. processChildren X n s1)
      else if matches1 s tt_jsxText then
        andThen (processChildTextElement s) (\<lambda>s1. processChildren X n s1)
      else Raised (Error ''Unexpected token when processing JSX children.''))"
| "processJSXTag X 0 s = OutOfFuel"
| "processJSXTag X (Suc n) s =
     (case currentToken s of
        None \<Rightarrow> Raised TypeError
      | Some t \<Rightarrow>
          andThen
            (processTagIntro X n
               (replaceToken
                  ((case getIdentifierReplacement X ''React'' of
                      None \<Rightarrow> ''React''
                    | Some r \<Rightarrow> if r = [] then ''React'' else r) @ ''.createElement('') s))
            (\<lambda>s1. andThen (processProps X n (tok_start t) s1)
               (\<lambda>s2.
                  if matches2 s2 tt_slash tt_jsxTagEnd
                  then Done (replaceToken '')'' (replaceToken [] s2))
                  else if matches1 s2 tt_jsxTagEnd
                  then andThen (processChildren X n (replaceToken [] s2))
                         (\<lambda>s3. andThen (processJSXTag_skip n s3)
                            (\<lambda>s4. Done (replaceToken '')'' s4)))
                  else Raised (Error ''Expected either /> or > at the end of the tag.''))))"

text \<open>\<^verbatim>\<open>process\<close>: the entry point the generic token processor calls.\<close>

definition process :: "'n collaborators \<Rightarrow> nat \<Rightarrow> 'n state \<Rightarrow> (bool \<times> 'n state) result" where
  "process X fuel s =
     (if matches1 s tt_jsxTagStart
      then andThen (processJSXTag X fuel s) (\<lambda>s1. Done (True, s1))
      else Done (False, s))"

section \<open>The name test on 16-bit code units\<close>

text \<open>
  A string of the host language is a sequence of 16-bit code units, and \<^verbatim>\<open>s[0]\<close> is the
  string of its first code unit. The definitions above keep to the code units below U+0100,
  which is all that the formatters, the attributes and the children look at. The test of
  \<^verbatim>\<open>startsWithLowerCase\<close> depends on what the built-in \<^verbatim>\<open>toLowerCase\<close> does to any
  code unit, so the test and \<^verbatim>\<open>processTagIntro\<close> are embedded a second time, with a code
  unit as a natural number (below 65536) and a string as a list of code units.
\<close>

text \<open>
  A range \<open>(lo, hi, step)\<close> of code units holds \<open>lo\<close>, \<open>lo + step\<close>, and so on up to \<open>hi\<close>.
\<close>

fun inRange :: "nat \<times> nat \<times> nat \<Rightarrow> nat \<Rightarrow> bool" where
  "inRange (lo, hi, step) c = (lo \<le> c \<and> c \<le> hi \<and> (c - lo) mod step = 0)"

text \<open>
  The built-in \<^verbatim>\<open>toLowerCase\<close> on a string of one code unit is the default case
  conversion of Unicode; the tables are those of version 14.0 of the Unicode character
  database. An entry \<open>(lo, hi, step, lower)\<close> says that the code units \<open>lo\<close>, \<open>lo + step\<close>,
  up to \<open>hi\<close> have the lower-case forms \<open>lower\<close>, \<open>lower + step\<close>, and so on. The first table
  has the code units below U+0100, the second the others: the upper-case letters first, then
  the title-case letters, the Roman numerals and the circled capital letters. The capital I
  with a dot above, U+0130, becomes the two code units U+0069 U+0307. Every other code unit
  is kept, a surrogate among them: \<^verbatim>\<open>s[0]\<close> of a string that starts with a character
  beyond U+FFFF is the first half of its surrogate pair.
\<close>

definition lowerCaseLatin1 :: "(nat \<times> nat \<times> nat \<times> nat) list" where
  "lowerCaseLatin1 =
     [(0x41, 0x5A, 1, 0x61), (0xC0, 0xD6, 1, 0xE0), (0xD8, 0xDE, 1, 0xF8)]"

definition lowerCaseBeyondLatin1 :: "(nat \<times> nat \<times> nat \<times> nat) list" where
  "lowerCaseBeyondLatin1 =
     [(0x0100, 0x012E, 2, 0x0101), (0x0132, 0x0136, 2, 0x0133), (0x0139, 0x0147, 2, 0x013A),
      (0x014A, 0x0176, 2, 0x014B), (0x0178, 0x0178, 1, 0xFF), (0x0179, 0x017D, 2, 0x017A),
      (0x0181, 0x0181, 1, 0x0253), (0x0182, 0x0182, 1, 0x0183), (0x0184, 0x0184, 1, 0x0185),
      (0x0186, 0x0186, 1, 0x0254), (0x0187, 0x0187, 1, 0x0188), (0x0189, 0x0189, 1, 0x0256),
      (0x018A, 0x018A, 1, 0x0257), (0x018B, 0x018B, 1, 0x018C), (0x018E, 0x018E, 1, 0x01DD),
      (0x018F, 0x018F, 1, 0x0259), (0x0190, 0x0190, 1, 0x025B), (0x0191, 0x0191, 1, 0x0192),
      (0x0193, 0x0193, 1, 0x0260), (0x0194, 0x0194, 1, 0x0263), (0x0196, 0x0196, 1, 0x0269),
      (0x0197, 0x0197, 1, 0x0268), (0x0198, 0x0198, 1, 0x0199), (0x019C, 0x019C, 1, 0x026F),
      (0x019D, 0x019D, 1, 0x0272), (0x019F, 0x019F, 1, 0x0275), (0x01A0, 0x01A0, 1, 0x01A1),
      (0x01A2, 0x01A4, 2, 0x01A3), (0x01A6, 0x01A6, 1, 0x0280), (0x01A7, 0x01A7, 1, 0x01A8),
      (0x01A9, 0x01A9, 1, 0x0283), (0x01AC, 0x01AC, 1, 0x01AD), (0x01AE, 0x01AE, 1, 0x0288),
      (0x01AF, 0x01AF, 1, 0x01B0), (0x01B1, 0x01B1, 1, 0x028A), (0x01B2, 0x01B2, 1, 0x028B),
      (0x01B3, 0x01B3, 1, 0x01B4), (0x01B5, 0x01B5, 1, 0x01B6), (0x01B7, 0x01B7, 1, 0x0292),
      (0x01B8, 0x01B8, 1, 0x01B9), (0x01BC, 0x01BC, 1, 0x01BD), (0x01C4, 0x01C4, 1, 0x01C6),
      (0x01C7, 0x01C7, 1, 0x01C9), (0x01CA, 0x01CA, 1, 0x01CC), (0x01CD, 0x01DB, 2, 0x01CE),
      (0x01DE, 0x01EE, 2, 0x01DF), (0x01F1, 0x01F1, 1, 0x01F3), (0x01F4, 0x01F4, 1, 0x01F5),
      (0x01F6, 0x01F6, 1, 0x0195), (0x01F7, 0x01F7, 1, 0x01BF), (0x01F8, 0x01F8, 1, 0x01F9),
      (0x01FA, 0x021E, 2, 0x01FB), (0x0220, 0x0220, 1, 0x019E), (0x0222, 0x0232, 2, 0x0223),
      (0x023A, 0x023A, 1, 0x2C65), (0x023B, 0x023B, 1, 0x023C), (0x023D, 0x023D, 1, 0x019A),
      (0x023E, 0x023E, 1, 0x2C66), (0x0241, 0x0241, 1, 0x0242), (0x0243, 0x0243, 1, 0x0180),
      (0x0244, 0x0244, 1, 0x0289), (0x0245, 0x0245, 1, 0x028C), (0x0246, 0x0246, 1, 0x0247),
      (0x0248, 0x024E, 2, 0x0249), (0x0370, 0x0372, 2, 0x0371), (0x0376, 0x0376, 1, 0x0377),
      (0x037F, 0x037F, 1, 0x03F3), (0x0386, 0x0386, 1, 0x03AC), (0x0388, 0x0388, 1, 0x03AD),
      (0x0389, 0x038A, 1, 0x03AE), (0x038C, 0x038C, 1, 0x03CC), (0x038E, 0x038E, 1, 0x03CD),
      (0x038F, 0x038F, 1, 0x03CE), (0x0391, 0x0391, 1, 0x03B1), (0x0392, 0x03A1, 1, 0x03B2),
      (0x03A3, 0x03AB, 1, 0x03C3), (0x03CF, 0x03CF, 1, 0x03D7), (0x03D8, 0x03EE, 2, 0x03D9),
      (0x03F4, 0x03F4, 1, 0x03B8), (0x03F7, 0x03F7, 1, 0x03F8), (0x03F9, 0x03F9, 1, 0x03F2),
      (0x03FA, 0x03FA, 1, 0x03FB), (0x03FD, 0x03FF, 1, 0x037B), (0x0400, 0x040F, 1, 0x0450),
      (0x0410, 0x042F, 1, 0x0430), (0x0460, 0x0480, 2, 0x0461), (0x048A, 0x04BE, 2, 0x048B),
      (0x04C0, 0x04C0, 1, 0x04CF), (0x04C1, 0x04CD, 2, 0x04C2), (0x04D0, 0x052E, 2, 0x04D1),
      (0x0531, 0x0556, 1, 0x0561), (0x10A0, 0x10C5, 1, 0x2D00), (0x10C7, 0x10C7, 1, 0x2D27),
      (0x10CD, 0x10CD, 1, 0x2D2D), (0x13A0, 0x13EF, 1, 0xAB70), (0x13F0, 0x13F5, 1, 0x13F8),
      (0x1C90, 0x1CBA, 1, 0x10D0), (0x1CBD, 0x1CBF, 1, 0x10FD), (0x1E00, 0x1E94, 2, 0x1E01),
      (0x1E9E, 0x1E9E, 1, 0xDF), (0x1EA0, 0x1EFE, 2, 0x1EA1), (0x1F08, 0x1F0F, 1, 0x1F00),
      (0x1F18, 0x1F1D, 1, 0x1F10), (0x1F28, 0x1F2F, 1, 0x1F20), (0x1F38, 0x1F3F, 1, 0x1F30),
      (0x1F48, 0x1F4D, 1, 0x1F40), (0x1F59, 0x1F5F, 2, 0x1F51), (0x1F68, 0x1F6F, 1, 0x1F60),
      (0x1FB8, 0x1FB9, 1, 0x1FB0), (0x1FBA, 0x1FBB, 1, 0x1F70), (0x1FC8, 0x1FCB, 1, 0x1F72),
      (0x1FD8, 0x1FD9, 1, 0x1FD0), (0x1FDA, 0x1FDB, 1, 0x1F76), (0x1FE8, 0x1FE9, 1, 0x1FE0),
      (0x1FEA, 0x1FEB, 1, 0x1F7A), (0x1FEC, 0x1FEC, 1, 0x1FE5), (0x1FF8, 0x1FF9, 1, 0x1F78),
      (0x1FFA, 0x1FFB, 1, 0x1F7C), (0x2126, 0x2126, 1, 0x03C9), (0x212A, 0x212A, 1, 0x6B),
      (0x212B, 0x212B, 1, 0xE5), (0x2132, 0x2132, 1, 0x214E), (0x2183, 0x2183, 1, 0x2184),
      (0x2C00, 0x2C2F, 1, 0x2C30), (0x2C60, 0x2C60, 1, 0x2C61), (0x2C62, 0x2C62, 1, 0x026B),
      (0x2C63, 0x2C63, 1, 0x1D7D), (0x2C64, 0x2C64, 1, 0x027D), (0x2C67, 0x2C6B, 2, 0x2C68),
      (0x2C6D, 0x2C6D, 1, 0x0251), (0x2C6E, 0x2C6E, 1, 0x0271), (0x2C6F, 0x2C6F, 1, 0x0250),
      (0x2C70, 0x2C70, 1, 0x0252), (0x2C72, 0x2C72, 1, 0x2C73), (0x2C75, 0x2C75, 1, 0x2C76),
      (0x2C7E, 0x2C7F, 1, 0x023F), (0x2C80, 0x2C80, 1, 0x2C81), (0x2C82, 0x2CE2, 2, 0x2C83),
      (0x2CEB, 0x2CED, 2, 0x2CEC), (0x2CF2, 0x2CF2, 1, 0x2CF3), (0xA640, 0xA66C, 2, 0xA641),
      (0xA680, 0xA69A, 2, 0xA681), (0xA722, 0xA72E, 2, 0xA723), (0xA732, 0xA76E, 2, 0xA733),
      (0xA779, 0xA77B, 2, 0xA77A), (0xA77D, 0xA77D, 1, 0x1D79), (0xA77E, 0xA786, 2, 0xA77F),
      (0xA78B, 0xA78B, 1, 0xA78C), (0xA78D, 0xA78D, 1, 0x0265), (0xA790, 0xA792, 2, 0xA791),
      (0xA796, 0xA7A8, 2, 0xA797), (0xA7AA, 0xA7AA, 1, 0x0266), (0xA7AB, 0xA7AB, 1, 0x025C),
      (0xA7AC, 0xA7AC, 1, 0x0261), (0xA7AD, 0xA7AD, 1, 0x026C), (0xA7AE, 0xA7AE, 1, 0x026A),
      (0xA7B0, 0xA7B0, 1, 0x029E), (0xA7B1, 0xA7B1, 1, 0x0287), (0xA7B2, 0xA7B2, 1, 0x029D),
      (0xA7B3, 0xA7B3, 1, 0xAB53), (0xA7B4, 0xA7B4, 1, 0xA7B5), (0xA7B6, 0xA7C2, 2, 0xA7B7),
      (0xA7C4, 0xA7C4, 1, 0xA794), (0xA7C5, 0xA7C5, 1, 0x0282), (0xA7C6, 0xA7C6, 1, 0x1D8E),
      (0xA7C7, 0xA7C7, 1, 0xA7C8), (0xA7C9, 0xA7C9, 1, 0xA7CA), (0xA7D0, 0xA7D0, 1, 0xA7D1),
      (0xA7D6, 0xA7D8, 2, 0xA7D7), (0xA7F5, 0xA7F5, 1, 0xA7F6), (0xFF21, 0xFF3A, 1, 0xFF41),
      (0x01C5, 0x01C5, 1, 0x01C6), (0x01C8, 0x01C8, 1, 0x01C9), (0x01CB, 0x01CB, 1, 0x01CC),
      (0x01F2, 0x01F2, 1, 0x01F3), (0x1F88, 0x1F8F, 1, 0x1F80), (0x1F98, 0x1F9F, 1, 0x1F90),
      (0x1FA8, 0x1FAF, 1, 0x1FA0), (0x1FBC, 0x1FBC, 1, 0x1FB3), (0x1FCC, 0x1FCC, 1, 0x1FC3),
      (0x1FFC, 0x1FFC, 1, 0x1FF3), (0x2160, 0x216F, 1, 0x2170), (0x24B6, 0x24CF, 1, 0x24D0)]"

fun lookupLowerCase :: "(nat \<times> nat \<times> nat \<times> nat) list \<Rightarrow> nat \<Rightarrow> nat option" where
  "lookupLowerCase [] c = None"
| "lookupLowerCase ((lo, hi, step, lower) # rs) c =
     (if inRange (lo, hi, step) c then Some (lower + (c - lo)) else lookupLowerCase rs c)"

definition toLowerCase_wide :: "nat \<Rightarrow> nat list" where
  "toLowerCase_wide c =
     (if c = 0x0130 then [0x69, 0x0307]
      else case lookupLowerCase (lowerCaseLatin1 @ lowerCaseBeyondLatin1) c of
             None \<Rightarrow> [c]
           | Some l \<Rightarrow> [l])"

text \<open>
  \<^verbatim>\<open>startsWithLowerCase\<close>: the string of the first code unit is compared with its
  lower-case form, which may be longer.
\<close>

definition startsWithLowerCase_wide :: "nat list \<Rightarrow> bool result" where
  "startsWithLowerCase_wide s =
     (case s of [] \<Rightarrow> Raised TypeError | c # cs \<Rightarrow> Done ([c] = toLowerCase_wide c))"

text \<open>
  The token, the fields of the token processor and its operations as above, on strings of
  16-bit code units. \<^verbatim>\<open>processTagIntro\<close> calls of the collaborators only
  \<^verbatim>\<open>rootTransformer.processToken\<close>, which is the parameter \<open>pt\<close>; \<open>0x27\<close> is the single
  quote.
\<close>

record wideToken =
  wtok_type :: tt
  wtok_start :: nat
  wtok_end :: nat
  wtok_value :: "nat list"

record wideState =
  wcode :: "nat list"
  wtokens :: "wideToken list"
  wresultCode :: "nat list"
  wtokenIndex :: nat

fun matchesAtIndex_wide_list :: "wideToken list \<Rightarrow> nat \<Rightarrow> string list \<Rightarrow> bool" where
  "matchesAtIndex_wide_list ts index [] = True"
| "matchesAtIndex_wide_list ts index (l # ls) =
     (index < length ts \<and> label (wtok_type (ts ! index)) = l
      \<and> matchesAtIndex_wide_list ts (Suc index) ls)"

definition matchesAtIndex_wide :: "wideState \<Rightarrow> nat \<Rightarrow> string list \<Rightarrow> bool" where
  "matchesAtIndex_wide s index tagLabels = matchesAtIndex_wide_list (wtokens s) index tagLabels"

definition currentToken_wide :: "wideState \<Rightarrow> wideToken option" where
  "currentToken_wide s =
     (if wtokenIndex s < length (wtokens s) then Some (wtokens s ! wtokenIndex s) else None)"

definition currentIndex_wide :: "wideState \<Rightarrow> nat" where
  "currentIndex_wide s = wtokenIndex s"

definition replaceToken_wide :: "nat list \<Rightarrow> wideState \<Rightarrow> wideState" where
  "replaceToken_wide newCode s =
     s\<lparr>wresultCode := wresultCode s @ newCode, wtokenIndex := wtokenIndex s + 1\<rparr>"

fun processTagIntro_find_wide :: "nat \<Rightarrow> wideState \<Rightarrow> nat \<Rightarrow> nat result" where
  "processTagIntro_find_wide 0 s introEnd = OutOfFuel"
| "processTagIntro_find_wide (Suc n) s introEnd =
     (if \<not> matchesAtIndex_wide s (introEnd - 1) [''jsxName'', ''jsxName'']
         \<and> \<not> matchesAtIndex_wide s introEnd [''{'']
         \<and> \<not> matchesAtIndex_wide s introEnd [''jsxTagEnd'']
         \<and> \<not> matchesAtIndex_wide s introEnd [''/'', ''jsxTagEnd'']
      then processTagIntro_find_wide n s (introEnd + 1)
      else Done introEnd)"

fun processTagIntro_loop_wide ::
  "(wideState \<Rightarrow> wideState result) \<Rightarrow> nat \<Rightarrow> nat \<Rightarrow> wideState \<Rightarrow> wideState result" where
  "processTagIntro_loop_wide pt 0 introEnd s = OutOfFuel"
| "processTagIntro_loop_wide pt (Suc n) introEnd s =
     (if currentIndex_wide s < introEnd
      then andThen (pt s) (\<lambda>s1. processTagIntro_loop_wide pt n introEnd s1)
      else Done s)"

definition processTagIntro_wide ::
  "(wideState \<Rightarrow> wideState result) \<Rightarrow> nat \<Rightarrow> wideState \<Rightarrow> wideState result" where
  "processTagIntro_wide pt fuel s =
     andThen (processTagIntro_find_wide fuel s (currentIndex_wide s + 1))
       (\<lambda>introEnd.
          andThen
            (if introEnd = currentIndex_wide s + 1
             then (case currentToken_wide s of
                     None \<Rightarrow> Raised TypeError
                   | Some t \<Rightarrow>
                       andThen (startsWithLowerCase_wide (wtok_value t))
                         (\<lambda>b. Done (if b then replaceToken_wide ([0x27] @ wtok_value t @ [0x27]) s
                                     else s)))
             else Done s)
            (\<lambda>s1. processTagIntro_loop_wide pt fuel introEnd s1))"

text \<open>
  A string, a token and the fields of the token processor of the first embedding, as they
  are in the second.
\<close>

definition widen :: "string \<Rightarrow> nat list" where
  "widen s = map of_char s"

definition widenToken :: "token \<Rightarrow> wideToken" where
  "widenToken t =
     \<lparr>wtok_type = tok_type t, wtok_start = tok_start t, wtok_end = tok_end t,
      wtok_value = widen (tok_value t)\<rparr>"

definition widenState :: "'n state \<Rightarrow> wideState" where
  "widenState s =
     \<lparr>wcode = widen (code s), wtokens = map widenToken (tokens s),
      wresultCode = widen (resultCode s), wtokenIndex = tokenIndex s\<rparr>"

section \<open>Example collaborators and inputs\<close>

text \<open>
  The state in which the constructor of \<^verbatim>\<open>JSXTransformer\<close> leaves a pass over the code \<open>c\<close>
  with the tokens \<open>ts\<close>: \<open>lastLineNumber\<close> is 1, \<open>lastIndex\<close> is 0 and no file-name
  variable is allocated.
\<close>

definition initialState :: "string \<Rightarrow> token list \<Rightarrow> string option \<Rightarrow> 'n \<Rightarrow> 'n state" where
  "initialState c ts path nm =
     \<lparr>code = c, tokens = ts, resultCode = [], tokenIndex = 0, lastLineNumber = 1,
      lastIndex = 0, filenameVarName = None, filePath = path, nameManager = nm\<rparr>"

definition tok :: "tt \<Rightarrow> nat \<Rightarrow> nat \<Rightarrow> string \<Rightarrow> token" where
  "tok t a b v = \<lparr>tok_type = t, tok_start = a, tok_end = b, tok_value = v\<rparr>"

text \<open>
  Collaborators for the examples: \<^verbatim>\<open>processToken\<close> copies the current token (past the
  end of the buffer it only advances),
  \<^verbatim>\<open>processBalancedCode\<close> copies the tokens up to the next closing brace and stops on it
  (or at the end of the buffer when there is none), \<^verbatim>\<open>claimFreeName\<close> returns its seed
  and no import renames \<^verbatim>\<open>React\<close>.
\<close>

definition copyTokenIfAny :: "'n state \<Rightarrow> 'n state result" where
  "copyTokenIfAny s =
     (if tokenIndex s < length (tokens s) then copyToken s else Done (replaceToken [] s))"

fun copyToBraceR :: "nat \<Rightarrow> 'n state \<Rightarrow> 'n state result" where
  "copyToBraceR 0 s = OutOfFuel"
| "copyToBraceR (Suc n) s =
     (if matches1 s tt_braceR \<or> length (tokens s) \<le> tokenIndex s then Done s
      else andThen (copyToken s) (copyToBraceR n))"

definition exampleCollaborators :: "unit collaborators" where
  "exampleCollaborators =
     \<lparr>processToken = copyTokenIfAny,
      processBalancedCode = (\<lambda>s. copyToBraceR (Suc (length (tokens s))) s),
      claimFreeName = (\<lambda>seed nm. (seed, nm)),
      getIdentifierReplacement = (\<lambda>name. None)\<rparr>"




definition example_underscore :: "unit state" where
  "example_underscore = initialState ''<_Foo/>''
     [tok tt_jsxTagStart 0 1 [], tok tt_jsxName 1 5 ''_Foo'', tok tt_slash 5 6 ''/'',
      tok tt_jsxTagEnd 6 7 [], tok tt_eof 7 7 []] None ()"

text \<open>
  A tag with a hyphenated string attribute, an expression attribute and a bare attribute, and
  a tag whose children are an empty and a non-empty interpolation.
\<close>

definition example_attributes :: "unit state" where
  "example_attributes = initialState ''<Foo data-x=\"a-b\" bar={y} baz />''
     [tok tt_jsxTagStart 0 1 [], tok tt_jsxName 1 4 ''Foo'', tok tt_jsxName 5 11 ''data-x'',
      tok tt_eq 11 12 ''='', tok tt_string 12 17 ''a-b'', tok tt_jsxName 18 21 ''bar'',
      tok tt_eq 21 22 ''='', tok tt_braceL 22 23 [], tok tt_name 23 24 ''y'',
      tok tt_braceR 24 25 [], tok tt_jsxName 26 29 ''baz'', tok tt_slash 30 31 ''/'',
      tok tt_jsxTagEnd 31 32 [], tok tt_eof 32 32 []] None ()"

definition example_interpolations :: "unit state" where
  "example_interpolations = initialState ''<a>{}{x}</a>''
     [tok tt_jsxTagStart 0 1 [], tok tt_jsxName 1 2 ''a'', tok tt_jsxTagEnd 2 3 [],
      tok tt_braceL 3 4 [], tok tt_braceR 4 5 [], tok tt_braceL 5 6 [], tok tt_name 6 7 ''x'',
      tok tt_braceR 7 8 [], tok tt_jsxTagStart 8 9 [], tok tt_slash 9 10 ''/'',
      tok tt_jsxName 10 11 ''a'', tok tt_jsxTagEnd 11 12 [], tok tt_eof 12 12 []] None ()"

text \<open>A tag without attributes on the second line of the code.\<close>

definition example_no_attributes :: "unit state" where
  "example_no_attributes = initialState ''<a>\<newline><Foo/></a>''
     [tok tt_jsxTagStart 0 1 [], tok tt_jsxName 1 2 ''a'', tok tt_jsxTagEnd 2 3 [],
      tok tt_jsxText 3 4 ''\<newline>'', tok tt_jsxTagStart 4 5 [], tok tt_jsxName 5 8 ''Foo'',
      tok tt_slash 8 9 ''/'', tok tt_jsxTagEnd 9 10 [], tok tt_jsxTagStart 10 11 [],
      tok tt_slash 11 12 ''/'', tok tt_jsxName 12 13 ''a'', tok tt_jsxTagEnd 13 14 [],
      tok tt_eof 14 14 []] None ()"






text \<open>
  On strings of 16-bit code units: a \<^verbatim>\<open>processToken\<close> that copies the current token, and
  the self-closing tag whose name is U+01C5 (the title-case letter D with small z with
  caron) followed by \<^verbatim>\<open>x\<close>, with the cursor on the name.
\<close>

definition copyTokenIfAny_wide :: "wideState \<Rightarrow> wideState result" where
  "copyTokenIfAny_wide s =
     (case currentToken_wide s of
        None \<Rightarrow> Done (replaceToken_wide [] s)
      | Some t \<Rightarrow>
          Done (replaceToken_wide
                  (take (wtok_end t - wtok_start t) (drop (wtok_start t) (wcode s))) s))"

definition example_title_case :: wideState where
  "example_title_case =
     \<lparr>wcode = [0x3C, 0x01C5, 0x78, 0x2F, 0x3E],
      wtokens =
        [\<lparr>wtok_type = tt_jsxTagStart, wtok_start = 0, wtok_end = 1, wtok_value = []\<rparr>,
         \<lparr>wtok_type = tt_jsxName, wtok_start = 1, wtok_end = 3, wtok_value = [0x01C5, 0x78]\<rparr>,
         \<lparr>wtok_type = tt_slash, wtok_start = 3, wtok_end = 4, wtok_value = [0x2F]\<rparr>,
         \<lparr>wtok_type = tt_jsxTagEnd, wtok_start = 4, wtok_end = 5, wtok_value = []\<rparr>,
         \<lparr>wtok_type = tt_eof, wtok_start = 5, wtok_end = 5, wtok_value = []\<rparr>],
      wresultCode = [], wtokenIndex = 1\<rparr>"

section \<open>Notions the properties are stated with\<close>

text \<open>The part of a text after its last newline; the whole text when it has no newline.\<close>

definition afterLastNewline :: "string \<Rightarrow> string" where
  "afterLastNewline str = rev (takeWhile (\<lambda>c. c \<noteq> newline) (rev str))"

text \<open>A text has a newline that is followed by a white-space character.\<close>

fun hasNewlineSpace :: "string \<Rightarrow> bool" where
  "hasNewlineSpace [] = False"
| "hasNewlineSpace [c] = False"
| "hasNewlineSpace (c # d # cs) = ((c = newline \<and> isWhiteSpace d) \<or> hasNewlineSpace (d # cs))"




text \<open>
  The line cursor is consistent: \<open>lastIndex\<close> is inside the code and \<open>lastLineNumber\<close> is
  one more than the number of newlines before \<open>lastIndex\<close>, counted directly.
\<close>

definition lineCursorOk :: "'n state \<Rightarrow> bool" where
  "lineCursorOk s =
     (lastIndex s \<le> length (code s)
      \<and> lastLineNumber s = 1 + count_list (take (lastIndex s) (code s)) newline)"

text \<open>The line numbers a sequence of queries returns, one after the other in one pass.\<close>

fun getLineNumbers :: "nat list \<Rightarrow> 'n state \<Rightarrow> nat list" where
  "getLineNumbers [] s = []"
| "getLineNumbers (i # is) s =
     (case getLineNumberForIndex i s of (n, s1) \<Rightarrow> n # getLineNumbers is s1)"

text \<open>
  A collaborator that always returns, keeps the token buffer, never moves the cursor back and
  only adds to the emitted code.
\<close>

definition cooperative :: "('n state \<Rightarrow> 'n state result) \<Rightarrow> bool" where
  "cooperative f =
     (\<forall>q. \<exists>q' out. f q = Done q' \<and> tokens q' = tokens q \<and> tokenIndex q \<le> tokenIndex q'
        \<and> resultCode q' = resultCode q @ out)"

text \<open>The token buffer ends with the end-of-file token, as the tokenizer leaves it.\<close>

definition endsWithEof :: "token list \<Rightarrow> bool" where
  "endsWithEof ts = (ts \<noteq> [] \<and> tok_type (last ts) = tt_eof)"


text \<open>
  The letters of the Basic Multilingual Plane by their general category in version 14.0 of
  the Unicode character database, as ranges: the upper-case letters (category Lu) and the
  title-case letters (category Lt), such as U+01C5, a capital D joined with a small z with
  caron. The code units that are upper-case without being letters are the Roman numerals
  U+2160 to U+216F and the circled capital letters U+24B6 to U+24CF.
\<close>

definition upperCaseLetterRanges :: "(nat \<times> nat \<times> nat) list" where
  "upperCaseLetterRanges =
     [(0x41, 0x5A, 1), (0xC0, 0xD6, 1), (0xD8, 0xDE, 1), (0x0100, 0x0136, 2),
      (0x0139, 0x0147, 2), (0x014A, 0x0178, 2), (0x0179, 0x017D, 2), (0x0181, 0x0182, 1),
      (0x0184, 0x0186, 2), (0x0187, 0x0189, 2), (0x018A, 0x018B, 1), (0x018E, 0x0191, 1),
      (0x0193, 0x0194, 1), (0x0196, 0x0198, 1), (0x019C, 0x019D, 1), (0x019F, 0x01A0, 1),
      (0x01A2, 0x01A6, 2), (0x01A7, 0x01A9, 2), (0x01AC, 0x01AE, 2), (0x01AF, 0x01B1, 2),
      (0x01B2, 0x01B3, 1), (0x01B5, 0x01B7, 2), (0x01B8, 0x01B8, 1), (0x01BC, 0x01BC, 1),
      (0x01C4, 0x01C4, 1), (0x01C7, 0x01C7, 1), (0x01CA, 0x01CA, 1), (0x01CD, 0x01DB, 2),
      (0x01DE, 0x01EE, 2), (0x01F1, 0x01F1, 1), (0x01F4, 0x01F6, 2), (0x01F7, 0x01F8, 1),
      (0x01FA, 0x0232, 2), (0x023A, 0x023B, 1), (0x023D, 0x023E, 1), (0x0241, 0x0243, 2),
      (0x0244, 0x0246, 1), (0x0248, 0x024E, 2), (0x0370, 0x0372, 2), (0x0376, 0x0376, 1),
      (0x037F, 0x037F, 1), (0x0386, 0x0388, 2), (0x0389, 0x038A, 1), (0x038C, 0x038E, 2),
      (0x038F, 0x0391, 2), (0x0392, 0x03A1, 1), (0x03A3, 0x03AB, 1), (0x03CF, 0x03CF, 1),
      (0x03D2, 0x03D4, 1), (0x03D8, 0x03EE, 2), (0x03F4, 0x03F4, 1), (0x03F7, 0x03F9, 2),
      (0x03FA, 0x03FA, 1), (0x03FD, 0x042F, 1), (0x0460, 0x0480, 2), (0x048A, 0x04C0, 2),
      (0x04C1, 0x04CD, 2), (0x04D0, 0x052E, 2), (0x0531, 0x0556, 1), (0x10A0, 0x10C5, 1),
      (0x10C7, 0x10C7, 1), (0x10CD, 0x10CD, 1), (0x13A0, 0x13F5, 1), (0x1C90, 0x1CBA, 1),
      (0x1CBD, 0x1CBF, 1), (0x1E00, 0x1E94, 2), (0x1E9E, 0x1EFE, 2), (0x1F08, 0x1F0F, 1),
      (0x1F18, 0x1F1D, 1), (0x1F28, 0x1F2F, 1), (0x1F38, 0x1F3F, 1), (0x1F48, 0x1F4D, 1),
      (0x1F59, 0x1F5F, 2), (0x1F68, 0x1F6F, 1), (0x1FB8, 0x1FBB, 1), (0x1FC8, 0x1FCB, 1),
      (0x1FD8, 0x1FDB, 1), (0x1FE8, 0x1FEC, 1), (0x1FF8, 0x1FFB, 1), (0x2102, 0x2102, 1),
      (0x2107, 0x2107, 1), (0x210B, 0x210D, 1), (0x2110, 0x2112, 1), (0x2115, 0x2115, 1),
      (0x2119, 0x211D, 1), (0x2124, 0x212A, 2), (0x212B, 0x212D, 1), (0x2130, 0x2133, 1),
      (0x213E, 0x213F, 1), (0x2145, 0x2145, 1), (0x2183, 0x2183, 1), (0x2C00, 0x2C2F, 1),
      (0x2C60, 0x2C62, 2), (0x2C63, 0x2C64, 1), (0x2C67, 0x2C6D, 2), (0x2C6E, 0x2C70, 1),
      (0x2C72, 0x2C72, 1), (0x2C75, 0x2C75, 1), (0x2C7E, 0x2C80, 1), (0x2C82, 0x2CE2, 2),
      (0x2CEB, 0x2CED, 2), (0x2CF2, 0x2CF2, 1), (0xA640, 0xA66C, 2), (0xA680, 0xA69A, 2),
      (0xA722, 0xA72E, 2), (0xA732, 0xA76E, 2), (0xA779, 0xA77D, 2), (0xA77E, 0xA786, 2),
      (0xA78B, 0xA78D, 2), (0xA790, 0xA792, 2), (0xA796, 0xA7AA, 2), (0xA7AB, 0xA7AE, 1),
      (0xA7B0, 0xA7B4, 1), (0xA7B6, 0xA7C4, 2), (0xA7C5, 0xA7C7, 1), (0xA7C9, 0xA7C9, 1),
      (0xA7D0, 0xA7D0, 1), (0xA7D6, 0xA7D8, 2), (0xA7F5, 0xA7F5, 1), (0xFF21, 0xFF3A, 1)]"

definition titleCaseLetterRanges :: "(nat \<times> nat \<times> nat) list" where
  "titleCaseLetterRanges =
     [(0x01C5, 0x01C5, 1), (0x01C8, 0x01C8, 1), (0x01CB, 0x01CB, 1), (0x01F2, 0x01F2, 1),
      (0x1F88, 0x1F8F, 1), (0x1F98, 0x1F9F, 1), (0x1FA8, 0x1FAF, 1), (0x1FBC, 0x1FBC, 1),
      (0x1FCC, 0x1FCC, 1), (0x1FFC, 0x1FFC, 1)]"

definition otherUpperCaseRanges :: "(nat \<times> nat \<times> nat) list" where
  "otherUpperCaseRanges =
     [(0x2160, 0x216F, 1), (0x24B6, 0x24CF, 1)]"

definition isUpperCaseLetter_wide :: "nat \<Rightarrow> bool" where
  "isUpperCaseLetter_wide c = list_ex (\<lambda>r. inRange r c) upperCaseLetterRanges"

definition isTitleCaseLetter_wide :: "nat \<Rightarrow> bool" where
  "isTitleCaseLetter_wide c = list_ex (\<lambda>r. inRange r c) titleCaseLetterRanges"

definition isOtherUpperCase_wide :: "nat \<Rightarrow> bool" where
  "isOtherUpperCase_wide c = list_ex (\<lambda>r. inRange r c) otherUpperCaseRanges"

text \<open>
  A range lies in another; and every entry of a table of lower-case forms lies in a range of
  a list, both taken in their order.
\<close>

fun subRange :: "nat \<times> nat \<times> nat \<Rightarrow> nat \<times> nat \<times> nat \<Rightarrow> bool" where
  "subRange (lo, hi, step) (lo', hi', step') =
     (lo' \<le> lo \<and> hi \<le> hi' \<and> (lo - lo') mod step' = 0
      \<and> (lo = hi \<or> step mod step' = 0))"

fun coveredBy :: "(nat \<times> nat \<times> nat \<times> nat) list \<Rightarrow> (nat \<times> nat \<times> nat) list \<Rightarrow> bool" where
  "coveredBy [] rs = True"
| "coveredBy (e # es) [] = False"
| "coveredBy ((lo, hi, step, lower) # es) (r # rs) =
     (if subRange (lo, hi, step) r then coveredBy es (r # rs)
      else coveredBy ((lo, hi, step, lower) # es) rs)"

text \<open>The index \<open>e\<close> is one at which the search of \<^verbatim>\<open>processTagIntro\<close> stops, on 16-bit code units.\<close>

definition tagIntroEndsAt_wide :: "wideState \<Rightarrow> nat \<Rightarrow> bool" where
  "tagIntroEndsAt_wide s e =
     (matchesAtIndex_wide s (e - 1) [''jsxName'', ''jsxName'']
      \<or> matchesAtIndex_wide s e [''{'']
      \<or> matchesAtIndex_wide s e [''jsxTagEnd'']
      \<or> matchesAtIndex_wide s e [''/'', ''jsxTagEnd''])"










section \<open>The text formatters\<close>

lemmas char_defs = newline_def tab_def space_def dquote_def squote_def backslash_def

text \<open>
  C1, as the specification states it: \<^verbatim>\<open>formatJSXTextLiteral\<close> on the text space, hello,
  space, newline, space, world, space returns the literal of \<^verbatim>\<open>hello world\<close>, the leading
  space of the first line and the trailing space of the last line trimmed. The code does
  not: \<open>isInInitialLineWhitespace\<close> starts as false, so the white space before the first
  word is kept, and the white space after the last word is kept when no newline follows it.
\<close>

theorem formatJSXTextLiteral_hello_world_not_trimmed:
  "formatJSXTextLiteral '' hello \<newline> world '' \<noteq> JSON_stringify ''hello world''"
  by (simp add: formatJSXTextLiteral_def formatJSXTextLiteral_content_def JSON_stringify_def
      quoteJSONChar_def char_defs)

text \<open>
  C1, amended: on that text \<^verbatim>\<open>formatJSXTextLiteral\<close> returns the literal of
  \<^verbatim>\<open> hello world \<close> with the leading and the trailing space kept; the newline and the white
  space around it become the one joining space.
\<close>

theorem formatJSXTextLiteral_hello_world:
  "formatJSXTextLiteral '' hello \<newline> world '' = JSON_stringify '' hello world ''
   \<and> formatJSXTextLiteral '' hello \<newline> world '' = [dquote] @ '' hello world '' @ [dquote]"
  by (simp add: formatJSXTextLiteral_def formatJSXTextLiteral_content_def JSON_stringify_def
      quoteJSONChar_def char_defs)

lemma takeWhile_no_newline:
  "newline \<notin> set xs \<Longrightarrow> takeWhile (\<lambda>c. c \<noteq> newline) xs = xs"
  by (induction xs) auto

lemma afterLastNewline_Cons:
  "afterLastNewline (c # cs) =
     (if newline \<in> set cs then afterLastNewline cs else if c = newline then cs else c # cs)"
  by (auto simp: afterLastNewline_def takeWhile_tail takeWhile_no_newline)

lemma afterLastNewline_no_newline: "newline \<notin> set str \<Longrightarrow> afterLastNewline str = str"
  by (simp add: afterLastNewline_def takeWhile_no_newline)

lemma formatJSXTextReplacement_loop_counts:
  "formatJSXTextReplacement_loop str n k =
     (n + count_list str newline,
      (if newline \<in> set str then count_list (afterLastNewline str) space
       else k + count_list str space))"
proof (induction str arbitrary: n k)
  case Nil
  then show ?case by simp
next
  case (Cons c cs)
  show ?case
    by (simp add: Cons.IH afterLastNewline_Cons newline_def space_def)
qed

text \<open>
  C3: for every text, \<^verbatim>\<open>formatJSXTextReplacement\<close> returns one newline for each newline of
  the text, then as many spaces as there are space characters (tabs are not counted) after
  the last newline of the text, or in the whole text when it has no newline; so the result
  has exactly as many newlines as the text.
\<close>

theorem formatJSXTextReplacement_newlines_then_spaces:
  "formatJSXTextReplacement str =
     replicate (count_list str newline) newline
       @ replicate (count_list (afterLastNewline str) space) space
   \<and> count_list (formatJSXTextReplacement str) newline = count_list str newline"
proof -
  have eq: "formatJSXTextReplacement str =
     replicate (count_list str newline) newline
       @ replicate (count_list (afterLastNewline str) space) space"
    by (simp add: formatJSXTextReplacement_def formatJSXTextReplacement_loop_counts
        afterLastNewline_no_newline)
  have "count_list (replicate m newline @ replicate k space) newline = m" for m k
    by (induction m) (simp_all add: count_list_0_iff newline_def space_def)
  with eq show ?thesis by simp
qed

lemma dropWhile_white_run:
  "list_all isWhiteSpace w \<Longrightarrow> b = [] \<or> \<not> isWhiteSpace (hd b) \<Longrightarrow>
     dropWhile isWhiteSpace (w @ b) = b"
  by (induction w) (auto, cases b, auto)

lemma matchNewlineSpaces_run:
  assumes "w \<noteq> []" "list_all isWhiteSpace w" "b = [] \<or> \<not> isWhiteSpace (hd b)"
  shows "matchNewlineSpaces (newline # w @ b) = Some b"
proof -
  from assms(1,2) have "takeWhile isWhiteSpace (w @ b) \<noteq> []"
    by (cases w) auto
  with assms show ?thesis
    by (simp add: matchNewlineSpaces_def dropWhile_white_run)
qed

lemma matchNewlineSpaces_none:
  "c \<noteq> newline \<or> cs = [] \<or> \<not> isWhiteSpace (hd cs) \<Longrightarrow> matchNewlineSpaces (c # cs) = None"
  by (cases cs) (auto simp: matchNewlineSpaces_def)

lemma matchNewlineSpaces_NoneD:
  "matchNewlineSpaces (c # cs) = None \<Longrightarrow> c \<noteq> newline \<or> cs = [] \<or> \<not> isWhiteSpace (hd cs)"
  by (cases cs) (auto simp: matchNewlineSpaces_def split: if_splits)

lemma replaceNewlineSpaces_head_kept:
  "cs \<noteq> [] \<Longrightarrow> \<not> isWhiteSpace (hd cs) \<Longrightarrow>
     replaceNewlineSpaces cs \<noteq> [] \<and> hd (replaceNewlineSpaces cs) = hd cs"
proof (cases cs)
  case Nil
  then show "cs \<noteq> [] \<Longrightarrow> ?thesis" by simp
next
  case (Cons d ds)
  assume "\<not> isWhiteSpace (hd cs)"
  with Cons have "d \<noteq> newline" by (auto simp: isWhiteSpace_def)
  then have "matchNewlineSpaces (d # ds) = None" by (simp add: matchNewlineSpaces_none)
  with Cons show ?thesis by simp
qed

lemma hasNewlineSpace_Cons:
  "hasNewlineSpace (c # cs) =
     ((c = newline \<and> cs \<noteq> [] \<and> isWhiteSpace (hd cs)) \<or> hasNewlineSpace cs)"
  by (cases cs) auto

lemma replaceNewlineSpaces_no_run_left: "\<not> hasNewlineSpace (replaceNewlineSpaces str)"
proof (induction str rule: replaceNewlineSpaces.induct)
  case 1
  then show ?case by simp
next
  case (2 c cs)
  show ?case
  proof (cases "matchNewlineSpaces (c # cs)")
    case None
    then have IH: "\<not> hasNewlineSpace (replaceNewlineSpaces cs)" using 2 by simp
    from None have "c \<noteq> newline \<or> cs = [] \<or> \<not> isWhiteSpace (hd cs)"
      by (rule matchNewlineSpaces_NoneD)
    then have "\<not> (c = newline \<and> replaceNewlineSpaces cs \<noteq> []
                 \<and> isWhiteSpace (hd (replaceNewlineSpaces cs)))"
      using replaceNewlineSpaces_head_kept[of cs] by (cases "cs = []") auto
    with IH None show ?thesis by (simp add: hasNewlineSpace_Cons)
  next
    case (Some rest)
    then have IH: "\<not> hasNewlineSpace (replaceNewlineSpaces rest)" using 2 by simp
    have "space \<noteq> newline" by (simp add: space_def newline_def)
    with IH Some show ?thesis by (simp add: hasNewlineSpace_Cons)
  qed
qed

lemma replaceNewlineSpaces_unchanged:
  "\<not> hasNewlineSpace str \<Longrightarrow> replaceNewlineSpaces str = str"
proof (induction str)
  case Nil
  then show ?case by simp
next
  case (Cons c cs)
  then have "matchNewlineSpaces (c # cs) = None"
    by (intro matchNewlineSpaces_none) (auto simp: hasNewlineSpace_Cons)
  with Cons show ?case by (simp add: hasNewlineSpace_Cons)
qed

text \<open>
  C8: for every raw attribute value, \<^verbatim>\<open>formatJSXStringValueLiteral\<close> returns the escaped
  string literal of the text in which every run of a newline followed by one or more
  white-space characters is replaced by a single space. Where the scan stands at such a
  run \<open>w\<close> (taken as long as it goes), the run becomes one space; at any other character,
  in particular at a newline that no white-space character follows, the character is
  kept. No newline followed by white space is left in the result, and a text without such
  a run is only escaped.
\<close>

theorem formatJSXStringValueLiteral_replaces_newline_runs:
  "formatJSXStringValueLiteral str = JSON_stringify (replaceNewlineSpaces str)
   \<and> (\<forall>w b. w \<noteq> [] \<and> list_all isWhiteSpace w \<and> (b = [] \<or> \<not> isWhiteSpace (hd b)) \<longrightarrow>
         replaceNewlineSpaces (newline # w @ b) = space # replaceNewlineSpaces b)
   \<and> (\<forall>c cs. c \<noteq> newline \<or> cs = [] \<or> \<not> isWhiteSpace (hd cs) \<longrightarrow>
         replaceNewlineSpaces (c # cs) = c # replaceNewlineSpaces cs)
   \<and> \<not> hasNewlineSpace (replaceNewlineSpaces str)
   \<and> (\<not> hasNewlineSpace str \<longrightarrow> formatJSXStringValueLiteral str = JSON_stringify str)"
  by (simp add: formatJSXStringValueLiteral_def matchNewlineSpaces_run matchNewlineSpaces_none
      replaceNewlineSpaces_no_run_left replaceNewlineSpaces_unchanged)

theorem formatJSXStringValueLiteral_replaces_newline_runs_witness:
  "formatJSXStringValueLiteral ''a\<newline> \<newline>  b\<newline>c''
     = [dquote] @ ''a b'' @ [backslash] @ ''nc'' @ [dquote]
   \<and> replaceNewlineSpaces (newline # '' \<newline>  '' @ ''b\<newline>c'')
     = space # replaceNewlineSpaces ''b\<newline>c''
   \<and> replaceNewlineSpaces (newline # ''c'') = newline # replaceNewlineSpaces ''c''
   \<and> \<not> hasNewlineSpace (replaceNewlineSpaces ''a\<newline> \<newline>  b\<newline>c'')
   \<and> \<not> hasNewlineSpace ''b\<newline>c''
   \<and> formatJSXStringValueLiteral ''b\<newline>c'' = JSON_stringify ''b\<newline>c''"
proof -
  note t = formatJSXStringValueLiteral_replaces_newline_runs
  have ws: "list_all isWhiteSpace '' \<newline>  ''"
    by (simp add: isWhiteSpace_def char_defs)
  have nws: "\<not> isWhiteSpace (hd ''b\<newline>c'')" "\<not> isWhiteSpace (hd ''c'')"
    by (simp_all add: isWhiteSpace_def char_defs)
  have nrun: "\<not> hasNewlineSpace ''b\<newline>c''"
    by (simp add: isWhiteSpace_def char_defs)
  have 1: "replaceNewlineSpaces (newline # '' \<newline>  '' @ ''b\<newline>c'')
             = space # replaceNewlineSpaces ''b\<newline>c''"
    using t[of "[]", THEN conjunct2, THEN conjunct1, rule_format, of "'' \<newline>  ''" "''b\<newline>c''"]
      ws nws by simp
  have 2: "replaceNewlineSpaces (newline # ''c'') = newline # replaceNewlineSpaces ''c''"
    using t[of "[]", THEN conjunct2, THEN conjunct2, THEN conjunct1, rule_format,
        of newline "''c''"] nws by simp
  have 3: "\<not> hasNewlineSpace (replaceNewlineSpaces ''a\<newline> \<newline>  b\<newline>c'')"
    using t[of "''a\<newline> \<newline>  b\<newline>c''"] by blast
  have 4: "formatJSXStringValueLiteral ''b\<newline>c'' = JSON_stringify ''b\<newline>c''"
    using t[of "''b\<newline>c''"] nrun by blast
  have 5: "formatJSXStringValueLiteral ''a\<newline> \<newline>  b\<newline>c''
             = [dquote] @ ''a b'' @ [backslash] @ ''nc'' @ [dquote]"
    by (simp add: formatJSXStringValueLiteral_def matchNewlineSpaces_def isWhiteSpace_def
        JSON_stringify_def quoteJSONChar_def char_defs)
  from 1 2 3 4 5 nrun show ?thesis by blast
qed

section \<open>The line cursor\<close>

lemma count_list_take_Suc:
  "li < length c \<Longrightarrow>
     count_list (take (Suc li) c) x = count_list (take li c) x + (if c ! li = x then 1 else 0)"
  by (simp add: take_Suc_conv_app_nth)

lemma getLineNumberForIndex_loop_result:
  "li \<le> index \<Longrightarrow> li \<le> length c \<Longrightarrow> ln = 1 + count_list (take li c) newline \<Longrightarrow>
     getLineNumberForIndex_loop c index li ln
       = (min index (length c), 1 + count_list (take index c) newline)"
proof (induction c index li ln rule: getLineNumberForIndex_loop.induct)
  case (1 c index li ln)
  show ?case
  proof (cases "li < index \<and> li < length c")
    case True
    then have "getLineNumberForIndex_loop c index li ln
        = getLineNumberForIndex_loop c index (li + 1) (if c ! li = newline then ln + 1 else ln)"
      by (subst getLineNumberForIndex_loop.simps) simp
    also have "\<dots> = (min index (length c), 1 + count_list (take index c) newline)"
      using True "1.prems" by (intro "1.IH") (auto simp: count_list_take_Suc)
    finally show ?thesis .
  next
    case False
    then have r: "getLineNumberForIndex_loop c index li ln = (li, ln)"
      by (subst getLineNumberForIndex_loop.simps) auto
    from False "1.prems" have "li = index \<or> li = length c" by auto
    then show ?thesis using r "1.prems" by auto
  qed
qed

lemma getLineNumberForIndex_steps_result:
  "li \<le> index \<Longrightarrow> li \<le> length c \<Longrightarrow>
     getLineNumberForIndex_steps c index li = min index (length c) - li"
proof (induction c index li rule: getLineNumberForIndex_steps.induct)
  case (1 c index li)
  show ?case
  proof (cases "li < index \<and> li < length c")
    case True
    then have "getLineNumberForIndex_steps c index li
        = Suc (getLineNumberForIndex_steps c index (li + 1))"
      by (subst getLineNumberForIndex_steps.simps) simp
    also have "getLineNumberForIndex_steps c index (li + 1) = min index (length c) - (li + 1)"
      using True by (intro "1.IH") auto
    finally show ?thesis using True by auto
  next
    case False
    then have "getLineNumberForIndex_steps c index li = 0"
      by (subst getLineNumberForIndex_steps.simps) auto
    with False "1.prems" show ?thesis by auto
  qed
qed

lemma getLineNumberForIndex_result:
  assumes "lineCursorOk s" "lastIndex s \<le> index"
  shows "getLineNumberForIndex index s
     = (1 + count_list (take index (code s)) newline,
        s\<lparr>lastIndex := min index (length (code s)),
          lastLineNumber := 1 + count_list (take index (code s)) newline\<rparr>)"
  using assms
  by (simp add: getLineNumberForIndex_def lineCursorOk_def getLineNumberForIndex_loop_result)

lemma getLineNumberForIndex_keeps_ok:
  assumes "lineCursorOk s" "lastIndex s \<le> index"
  shows "lineCursorOk (snd (getLineNumberForIndex index s))"
  using assms by (auto simp: getLineNumberForIndex_result lineCursorOk_def min_def)

lemma getLineNumbers_result:
  "lineCursorOk s \<Longrightarrow> (\<forall>i\<in>set offsets. lastIndex s \<le> i) \<Longrightarrow> sorted offsets \<Longrightarrow>
     getLineNumbers offsets s = map (\<lambda>i. 1 + count_list (take i (code s)) newline) offsets"
proof (induction offsets arbitrary: s)
  case Nil
  then show ?case by simp
next
  case (Cons i offsets)
  let ?s1 = "s\<lparr>lastIndex := min i (length (code s)),
          lastLineNumber := 1 + count_list (take i (code s)) newline\<rparr>"
  have q: "getLineNumberForIndex i s = (1 + count_list (take i (code s)) newline, ?s1)"
    using Cons.prems by (intro getLineNumberForIndex_result) auto
  have ok: "lineCursorOk ?s1"
    using getLineNumberForIndex_keeps_ok[of s i] Cons.prems q by simp
  have "getLineNumbers offsets ?s1
      = map (\<lambda>i. 1 + count_list (take i (code ?s1)) newline) offsets"
    using Cons.prems ok by (intro Cons.IH) auto
  then show ?case using q by simp
qed

text \<open>
  C9: when the offsets are queried in non-decreasing order within one pass (from the state
  the constructor leaves), every call of \<^verbatim>\<open>getLineNumberForIndex\<close> returns 1 plus the
  number of newlines of the code strictly before the offset, as a direct count gives it.
  A single query from a consistent cursor that is not past the offset returns that number,
  leaves the cursor consistent at the offset (or at the end of the code), and the body of
  its loop runs once for each character between the previous position and the new one.
\<close>

theorem getLineNumberForIndex_counts_newlines_before_offset:
  "(lastIndex s = 0 \<and> lastLineNumber s = 1 \<and> sorted offsets \<longrightarrow>
      getLineNumbers offsets s
        = map (\<lambda>i. 1 + count_list (take i (code s)) newline) offsets)
   \<and> (lineCursorOk s \<and> lastIndex s \<le> index \<longrightarrow>
        fst (getLineNumberForIndex index s) = 1 + count_list (take index (code s)) newline
        \<and> lineCursorOk (snd (getLineNumberForIndex index s))
        \<and> lastIndex (snd (getLineNumberForIndex index s)) = min index (length (code s))
        \<and> getLineNumberForIndex_steps (code s) index (lastIndex s)
            = min index (length (code s)) - lastIndex s)"
proof (intro conjI impI)
  assume a: "lastIndex s = 0 \<and> lastLineNumber s = 1 \<and> sorted offsets"
  then have "lineCursorOk s" by (simp add: lineCursorOk_def)
  with a show "getLineNumbers offsets s
        = map (\<lambda>i. 1 + count_list (take i (code s)) newline) offsets"
    by (intro getLineNumbers_result) auto
next
  assume a: "lineCursorOk s \<and> lastIndex s \<le> index"
  then show "fst (getLineNumberForIndex index s) = 1 + count_list (take index (code s)) newline"
    by (simp add: getLineNumberForIndex_result)
  from a show "lineCursorOk (snd (getLineNumberForIndex index s))"
    by (simp add: getLineNumberForIndex_keeps_ok)
  from a show "lastIndex (snd (getLineNumberForIndex index s)) = min index (length (code s))"
    by (simp add: getLineNumberForIndex_result)
  from a show "getLineNumberForIndex_steps (code s) index (lastIndex s)
            = min index (length (code s)) - lastIndex s"
    by (intro getLineNumberForIndex_steps_result) (auto simp: lineCursorOk_def)
qed

theorem getLineNumberForIndex_counts_newlines_before_offset_witness:
  "getLineNumbers [0, 2, 2, 5, 9] (initialState ''a\<newline>b\<newline>\<newline>c'' [] None ()) = [1, 2, 2, 4, 4]
   \<and> fst (getLineNumberForIndex 5 (initialState ''a\<newline>b\<newline>\<newline>c'' [] None ())) = 4
   \<and> getLineNumberForIndex_steps ''a\<newline>b\<newline>\<newline>c'' 5 0 = 5"
proof -
  let ?s = "initialState ''a\<newline>b\<newline>\<newline>c'' [] None ()"
  have ini: "lastIndex ?s = 0" "lastLineNumber ?s = 1" "code ?s = ''a\<newline>b\<newline>\<newline>c''"
    by (simp_all add: initialState_def)
  have ok: "lineCursorOk ?s"
    by (simp add: lineCursorOk_def initialState_def)
  have srt: "sorted [0, 2, 2, 5, 9::nat]" by simp
  note t = getLineNumberForIndex_counts_newlines_before_offset
  have 1: "getLineNumbers [0, 2, 2, 5, 9] ?s = [1, 2, 2, 4, 4]"
    using t[of ?s "[0, 2, 2, 5, 9]" 0] ini srt by (simp add: newline_def)
  have 2: "fst (getLineNumberForIndex 5 ?s) = 4"
    using t[of ?s "[]" 5] ini ok by (simp add: newline_def)
  have 3: "getLineNumberForIndex_steps ''a\<newline>b\<newline>\<newline>c'' 5 0 = 5"
    using t[of ?s "[]" 5] ini ok by simp
  from 1 2 3 show ?thesis by blast
qed

section \<open>The intro of a tag\<close>








section \<open>Attributes and children\<close>

lemma andThen_simps [simp]:
  "andThen (Done x) f = f x" "andThen (Raised e) f = Raised e" "andThen OutOfFuel f = OutOfFuel"
  by (simp_all add: andThen_def)

lemma andThen_andThen: "andThen (andThen r f) g = andThen r (\<lambda>x. andThen (f x) g)"
  by (cases r) simp_all

lemma resultCode_tokenIndex_swap [simp]:
  "resultCode_update f (tokenIndex_update g s) = tokenIndex_update g (resultCode_update f s)"
  by simp

lemma copyToken_Some:
  "currentToken s = Some t \<Longrightarrow>
     copyToken s = Done (s\<lparr>resultCode := resultCode s @ tokenText (code s) t,
                           tokenIndex := tokenIndex s + 1\<rparr>)"
  by (simp add: copyToken_def replaceToken_def)

lemma processProps_loop_bare:
  assumes "currentToken s = Some t" "matches1 s tt_jsxName" "\<not> matches2 s tt_jsxName tt_eq"
  shows "processProps_loop X (Suc n) s
              = processProps_loop X n
                  (s\<lparr>resultCode := resultCode s @ tokenText (code s) t @ '': true,'',
                     tokenIndex := tokenIndex s + 1\<rparr>)"
  using assms(2,3) by (simp add: copyToken_Some[OF assms(1)] appendCode_def)

lemma processProps_loop_key:
  assumes "currentToken s = Some t"
  shows "(if CHR ''-'' \<in> set (tok_value t)
          then Done (replaceToken ([squote] @ tok_value t @ [squote]) s) else copyToken s)
       = Done (s\<lparr>resultCode := resultCode s
                        @ (if CHR ''-'' \<in> set (tok_value t) then [squote] @ tok_value t @ [squote]
                           else tokenText (code s) t),
                  tokenIndex := tokenIndex s + 1\<rparr>)"
  by (simp add: copyToken_Some[OF assms] replaceToken_def)

lemma processProps_loop_value:
  assumes "currentToken s = Some t" "matches2 s tt_jsxName tt_eq"
  shows "processProps_loop X (Suc n) s
     = andThen
         (if matches1 (s\<lparr>tokenIndex := tokenIndex s + 2\<rparr>) tt_braceL
          then andThen
                 (processBalancedCode X
                    (s\<lparr>resultCode := resultCode s
                          @ (if CHR ''-'' \<in> set (tok_value t) then [squote] @ tok_value t @ [squote]
                             else tokenText (code s) t)
                          @ '': '',
                       tokenIndex := tokenIndex s + 3\<rparr>))
                 (\<lambda>s2. Done (replaceToken [] s2))
          else processStringPropValue
                 (s\<lparr>resultCode := resultCode s
                       @ (if CHR ''-'' \<in> set (tok_value t) then [squote] @ tok_value t @ [squote]
                          else tokenText (code s) t)
                       @ '': '',
                    tokenIndex := tokenIndex s + 2\<rparr>))
         (\<lambda>s3. processProps_loop X n (appendCode '','' s3))"
  using assms(2)
  by (simp add: assms(1) processProps_loop_key[OF assms(1)] replaceToken_def matches1_def
      eval_nat_numeral)

lemma processProps_loop_string:
  assumes "currentToken s = Some t" "matches2 s tt_jsxName tt_eq"
    "currentToken (s\<lparr>tokenIndex := tokenIndex s + 2\<rparr>) = Some v" "tok_type v \<noteq> tt_braceL"
  shows "processProps_loop X (Suc n) s
              = processProps_loop X n
                  (s\<lparr>resultCode := resultCode s
                        @ (if CHR ''-'' \<in> set (tok_value t) then [squote] @ tok_value t @ [squote]
                           else tokenText (code s) t)
                        @ '': '' @ formatJSXStringValueLiteral (tok_value v)
                        @ formatJSXTextReplacement (tok_value v) @ '','',
                     tokenIndex := tokenIndex s + 3\<rparr>)"
proof -
  from assms(3,4) have v: "tokenIndex s + 2 < length (tokens s)"
    "tokens s ! (tokenIndex s + 2) = v" "\<not> matches1 (s\<lparr>tokenIndex := tokenIndex s + 2\<rparr>) tt_braceL"
    by (auto simp: currentToken_def matches1_def split: if_splits)
  show ?thesis
    unfolding processProps_loop_value[OF assms(1,2)]
    using v
    by (simp add: processStringPropValue_def currentToken_def replaceToken_def appendCode_def
        eval_nat_numeral)
qed

lemma processProps_loop_expression:
  assumes "currentToken s = Some t" "matches2 s tt_jsxName tt_eq"
    "currentToken (s\<lparr>tokenIndex := tokenIndex s + 2\<rparr>) = Some v" "tok_type v = tt_braceL"
  shows "processProps_loop X (Suc n) s
              = andThen
                  (processBalancedCode X
                     (s\<lparr>resultCode := resultCode s
                           @ (if CHR ''-'' \<in> set (tok_value t) then [squote] @ tok_value t @ [squote]
                              else tokenText (code s) t)
                           @ '': '',
                        tokenIndex := tokenIndex s + 3\<rparr>))
                  (\<lambda>s2. processProps_loop X n
                           (s2\<lparr>resultCode := resultCode s2 @ '','', tokenIndex := tokenIndex s2 + 1\<rparr>))"
proof -
  from assms(3,4) have v: "matches1 (s\<lparr>tokenIndex := tokenIndex s + 2\<rparr>) tt_braceL"
    by (auto simp: currentToken_def matches1_def split: if_splits)
  show ?thesis
    unfolding processProps_loop_value[OF assms(1,2)]
    using v
    by (simp add: replaceToken_def appendCode_def andThen_andThen)
qed

text \<open>
  C6: in the loop of \<^verbatim>\<open>processProps\<close>, with the cursor on an attribute name \<open>t\<close>: when the
  name is followed by an equals sign, the key that is emitted is the name between single
  quotes if the name's text has a hyphen and the name's own text otherwise, then
  \<^verbatim>\<open>: \<close> and the value (the formatted string literal, or the expression that
  \<^verbatim>\<open>processBalancedCode\<close> emits between the two dropped braces); a name that no equals
  sign follows is emitted as its text and \<^verbatim>\<open>: true\<close>. Every attribute is followed by a
  comma.
\<close>

theorem processProps_attribute_keys:
  assumes "currentToken s = Some t"
  shows "(matches2 s tt_jsxName tt_eq
          \<and> currentToken (s\<lparr>tokenIndex := tokenIndex s + 2\<rparr>) = Some v \<and> tok_type v \<noteq> tt_braceL \<longrightarrow>
            processProps_loop X (Suc n) s
              = processProps_loop X n
                  (s\<lparr>resultCode := resultCode s
                        @ (if CHR ''-'' \<in> set (tok_value t) then [squote] @ tok_value t @ [squote]
                           else tokenText (code s) t)
                        @ '': '' @ formatJSXStringValueLiteral (tok_value v)
                        @ formatJSXTextReplacement (tok_value v) @ '','',
                     tokenIndex := tokenIndex s + 3\<rparr>))
       \<and> (matches2 s tt_jsxName tt_eq
          \<and> currentToken (s\<lparr>tokenIndex := tokenIndex s + 2\<rparr>) = Some v \<and> tok_type v = tt_braceL \<longrightarrow>
            processProps_loop X (Suc n) s
              = andThen
                  (processBalancedCode X
                     (s\<lparr>resultCode := resultCode s
                           @ (if CHR ''-'' \<in> set (tok_value t) then [squote] @ tok_value t @ [squote]
                              else tokenText (code s) t)
                           @ '': '',
                        tokenIndex := tokenIndex s + 3\<rparr>))
                  (\<lambda>s2. processProps_loop X n
                           (s2\<lparr>resultCode := resultCode s2 @ '','', tokenIndex := tokenIndex s2 + 1\<rparr>)))
       \<and> (matches1 s tt_jsxName \<and> \<not> matches2 s tt_jsxName tt_eq \<longrightarrow>
            processProps_loop X (Suc n) s
              = processProps_loop X n
                  (s\<lparr>resultCode := resultCode s @ tokenText (code s) t @ '': true,'',
                     tokenIndex := tokenIndex s + 1\<rparr>))"
  using processProps_loop_string[OF assms, of v X n] processProps_loop_expression[OF assms, of v X n]
    processProps_loop_bare[OF assms, of X n]
  by blast

theorem processProps_attribute_keys_witness:
  "processProps_loop exampleCollaborators 6 (example_attributes\<lparr>tokenIndex := 2\<rparr>)
     = Done (example_attributes
               \<lparr>resultCode := [squote] @ ''data-x': \"a-b\",bar: y,baz: true,'',
                tokenIndex := 11\<rparr>)"
proof -
  note t = processProps_attribute_keys
  let ?X = exampleCollaborators
  let ?a = "example_attributes\<lparr>tokenIndex := 2\<rparr>"
  let ?b = "example_attributes\<lparr>resultCode := [squote] @ ''data-x': \"a-b\",'', tokenIndex := 5\<rparr>"
  let ?c = "example_attributes\<lparr>resultCode := [squote] @ ''data-x': \"a-b\",bar: y,'',
              tokenIndex := 10\<rparr>"
  let ?d = "example_attributes\<lparr>resultCode := [squote] @ ''data-x': \"a-b\",bar: y,baz: true,'',
              tokenIndex := 11\<rparr>"
  have a: "currentToken ?a = Some (tok tt_jsxName 5 11 ''data-x'')"
    "matches2 ?a tt_jsxName tt_eq"
    "currentToken (?a\<lparr>tokenIndex := tokenIndex ?a + 2\<rparr>) = Some (tok tt_string 12 17 ''a-b'')"
    "tok_type (tok tt_string 12 17 ''a-b'') \<noteq> tt_braceL"
    by code_simp+
  have a': "?a\<lparr>resultCode := resultCode ?a
                @ (if CHR ''-'' \<in> set (tok_value (tok tt_jsxName 5 11 ''data-x''))
                   then [squote] @ tok_value (tok tt_jsxName 5 11 ''data-x'') @ [squote]
                   else tokenText (code ?a) (tok tt_jsxName 5 11 ''data-x''))
                @ '': '' @ formatJSXStringValueLiteral (tok_value (tok tt_string 12 17 ''a-b''))
                @ formatJSXTextReplacement (tok_value (tok tt_string 12 17 ''a-b'')) @ '','',
              tokenIndex := tokenIndex ?a + 3\<rparr> = ?b"
    by code_simp
  have 1: "processProps_loop ?X 6 ?a = processProps_loop ?X 5 ?b"
    using t[OF a(1), of "tok tt_string 12 17 ''a-b''" ?X 5] a(2,3,4) unfolding a' by simp
  have b: "currentToken ?b = Some (tok tt_jsxName 18 21 ''bar'')"
    "matches2 ?b tt_jsxName tt_eq"
    "currentToken (?b\<lparr>tokenIndex := tokenIndex ?b + 2\<rparr>) = Some (tok tt_braceL 22 23 [])"
    "tok_type (tok tt_braceL 22 23 []) = tt_braceL"
    by code_simp+
  have b': "andThen
              (processBalancedCode ?X
                 (?b\<lparr>resultCode := resultCode ?b
                       @ (if CHR ''-'' \<in> set (tok_value (tok tt_jsxName 18 21 ''bar''))
                          then [squote] @ tok_value (tok tt_jsxName 18 21 ''bar'') @ [squote]
                          else tokenText (code ?b) (tok tt_jsxName 18 21 ''bar''))
                       @ '': '',
                    tokenIndex := tokenIndex ?b + 3\<rparr>))
              (\<lambda>s2. processProps_loop ?X 4
                       (s2\<lparr>resultCode := resultCode s2 @ '','', tokenIndex := tokenIndex s2 + 1\<rparr>))
            = processProps_loop ?X 4 ?c"
    by code_simp
  have 2: "processProps_loop ?X 5 ?b = processProps_loop ?X 4 ?c"
    using t[OF b(1), of "tok tt_braceL 22 23 []" ?X 4] b(2,3,4) unfolding b' by simp
  have c: "currentToken ?c = Some (tok tt_jsxName 26 29 ''baz'')"
    "matches1 ?c tt_jsxName" "\<not> matches2 ?c tt_jsxName tt_eq"
    by code_simp+
  have c': "?c\<lparr>resultCode := resultCode ?c
               @ tokenText (code ?c) (tok tt_jsxName 26 29 ''baz'') @ '': true,'',
              tokenIndex := tokenIndex ?c + 1\<rparr> = ?d"
    by code_simp
  have 3: "processProps_loop ?X 4 ?c = processProps_loop ?X 3 ?d"
    using t[OF c(1), of undefined ?X 3] c(2,3) unfolding c' by simp
  have 4: "processProps_loop ?X 3 ?d = Done ?d"
    by code_simp
  from 1 2 3 4 show ?thesis by simp
qed

text \<open>
  C7: in child position, an opening brace directly followed by a closing brace is dropped
  with it and nothing is emitted, so the call gets no argument; at any other opening brace
  the brace is replaced by \<^verbatim>\<open>, \<close>, the interior is left to \<^verbatim>\<open>processBalancedCode\<close> and
  the closing brace on which it stops is dropped, so the call gets exactly one argument.
\<close>

theorem processChildren_interpolations:
  "(matches2 s tt_braceL tt_braceR \<longrightarrow>
      processChildren X (Suc n) s = processChildren X n (s\<lparr>tokenIndex := tokenIndex s + 2\<rparr>))
   \<and> (matches1 s tt_braceL \<and> \<not> matches2 s tt_braceL tt_braceR \<longrightarrow>
      processChildren X (Suc n) s
        = andThen (processBalancedCode X
                     (s\<lparr>resultCode := resultCode s @ '', '', tokenIndex := tokenIndex s + 1\<rparr>))
            (\<lambda>s1. processChildren X n (s1\<lparr>tokenIndex := tokenIndex s1 + 1\<rparr>)))"
  by (auto simp: matches1_def matches2_def replaceToken_def)

theorem processChildren_interpolations_witness:
  "processChildren exampleCollaborators 4 (example_interpolations\<lparr>tokenIndex := 3\<rparr>)
     = Done (example_interpolations\<lparr>resultCode := '', x'', tokenIndex := 8\<rparr>)
   \<and> processJSXTag exampleCollaborators 10 example_interpolations
     = Done (example_interpolations
        \<lparr>resultCode := ''React.createElement('a', {__self: this, __source: {fileName: _jsxFileName, lineNumber: 1}}, x)'',
         tokenIndex := 12, filenameVarName := Some ''_jsxFileName''\<rparr>)"
proof -
  note t = processChildren_interpolations
  let ?X = exampleCollaborators
  let ?a = "example_interpolations\<lparr>tokenIndex := 3\<rparr>"
  let ?b = "example_interpolations\<lparr>tokenIndex := 5\<rparr>"
  let ?c = "example_interpolations\<lparr>resultCode := '', x'', tokenIndex := 8\<rparr>"
  have a: "matches2 ?a tt_braceL tt_braceR" "?a\<lparr>tokenIndex := tokenIndex ?a + 2\<rparr> = ?b"
    by code_simp+
  have 1: "processChildren ?X 4 ?a = processChildren ?X 3 ?b"
    using t[of ?a ?X 3] a(1) unfolding a(2) by simp
  have b: "matches1 ?b tt_braceL" "\<not> matches2 ?b tt_braceL tt_braceR"
    "andThen (processBalancedCode ?X
                (?b\<lparr>resultCode := resultCode ?b @ '', '', tokenIndex := tokenIndex ?b + 1\<rparr>))
       (\<lambda>s1. processChildren ?X 2 (s1\<lparr>tokenIndex := tokenIndex s1 + 1\<rparr>)) = Done ?c"
    by code_simp+
  have 2: "processChildren ?X 3 ?b = Done ?c"
    using t[of ?b ?X 2] b(1,2) unfolding b(3) by simp
  have 3: "processJSXTag ?X 10 example_interpolations
     = Done (example_interpolations
        \<lparr>resultCode := ''React.createElement('a', {__self: this, __source: {fileName: _jsxFileName, lineNumber: 1}}, x)'',
         tokenIndex := 12, filenameVarName := Some ''_jsxFileName''\<rparr>)"
    by code_simp
  from 1 2 3 show ?thesis by simp
qed

section \<open>The props object\<close>

lemma cooperativeD:
  assumes "cooperative f"
  obtains q' out where "f q = Done q'" "tokens q' = tokens q" "tokenIndex q \<le> tokenIndex q'"
    "resultCode q' = resultCode q @ out"
  using assms unfolding cooperative_def by blast

lemma eof_not_last:
  assumes "endsWithEof ts" "i < length ts" "tok_type (ts ! i) \<noteq> tt_eof"
  shows "Suc i < length ts"
proof (rule ccontr)
  assume "\<not> Suc i < length ts"
  with assms(2) have "i = length ts - 1" by simp
  with assms(1) have "ts ! i = last ts" by (simp add: endsWithEof_def last_conv_nth)
  with assms(1,3) show False by (simp add: endsWithEof_def)
qed

lemma processProps_loop_total:
  assumes coop: "cooperative (processBalancedCode X)"
  shows "endsWithEof (tokens s) \<Longrightarrow> length (tokens s) - tokenIndex s < fuel \<Longrightarrow>
     \<exists>s' out. processProps_loop X fuel s = Done s' \<and> tokens s' = tokens s
        \<and> tokenIndex s \<le> tokenIndex s' \<and> resultCode s' = resultCode s @ out"
proof (induction fuel arbitrary: s)
  case 0
  then show ?case by simp
next
  case (Suc n)
  note eof = Suc.prems(1)
  consider (assign) "matches2 s tt_jsxName tt_eq"
    | (bare) "\<not> matches2 s tt_jsxName tt_eq" "matches1 s tt_jsxName"
    | (spread) "\<not> matches2 s tt_jsxName tt_eq" "\<not> matches1 s tt_jsxName" "matches1 s tt_braceL"
    | (stop) "\<not> matches2 s tt_jsxName tt_eq" "\<not> matches1 s tt_jsxName" "\<not> matches1 s tt_braceL"
    by blast
  then show ?case
  proof cases
    case assign
    then have i: "tokenIndex s + 1 < length (tokens s)"
      "tok_type (tokens s ! (tokenIndex s + 1)) = tt_eq"
      by (auto simp: matches2_def)
    then have ct: "currentToken s = Some (tokens s ! tokenIndex s)"
      by (simp add: currentToken_def)
    from eof_not_last[OF eof i(1)] i(2) have i2: "tokenIndex s + 2 < length (tokens s)"
      by simp
    then have cv: "currentToken (s\<lparr>tokenIndex := tokenIndex s + 2\<rparr>)
        = Some (tokens s ! (tokenIndex s + 2))"
      by (simp add: currentToken_def)
    show ?thesis
    proof (cases "tok_type (tokens s ! (tokenIndex s + 2)) = tt_braceL")
      case True
      let ?q = "s\<lparr>resultCode := resultCode s
                   @ (if CHR ''-'' \<in> set (tok_value (tokens s ! tokenIndex s))
                      then [squote] @ tok_value (tokens s ! tokenIndex s) @ [squote]
                      else tokenText (code s) (tokens s ! tokenIndex s))
                   @ '': '',
                 tokenIndex := tokenIndex s + 3\<rparr>"
      obtain q' out where q: "processBalancedCode X ?q = Done q'" "tokens q' = tokens ?q"
        "tokenIndex ?q \<le> tokenIndex q'" "resultCode q' = resultCode ?q @ out"
        using coop by (rule cooperativeD)
      let ?r = "q'\<lparr>resultCode := resultCode q' @ '','', tokenIndex := tokenIndex q' + 1\<rparr>"
      have "\<exists>s' out. processProps_loop X n ?r = Done s' \<and> tokens s' = tokens ?r
        \<and> tokenIndex ?r \<le> tokenIndex s' \<and> resultCode s' = resultCode ?r @ out"
        using Suc.prems q i2 by (intro Suc.IH) auto
      then obtain s' out' where s': "processProps_loop X n ?r = Done s'" "tokens s' = tokens ?r"
        "tokenIndex ?r \<le> tokenIndex s'" "resultCode s' = resultCode ?r @ out'"
        by blast
      have "processProps_loop X (Suc n) s = Done s'"
        unfolding processProps_loop_expression[OF ct assign cv True] using q(1) s'(1) by simp
      with s' q show ?thesis by auto
    next
      case False
      let ?r = "s\<lparr>resultCode := resultCode s
                   @ (if CHR ''-'' \<in> set (tok_value (tokens s ! tokenIndex s))
                      then [squote] @ tok_value (tokens s ! tokenIndex s) @ [squote]
                      else tokenText (code s) (tokens s ! tokenIndex s))
                   @ '': '' @ formatJSXStringValueLiteral (tok_value (tokens s ! (tokenIndex s + 2)))
                   @ formatJSXTextReplacement (tok_value (tokens s ! (tokenIndex s + 2))) @ '','',
                 tokenIndex := tokenIndex s + 3\<rparr>"
      have "\<exists>s' out. processProps_loop X n ?r = Done s' \<and> tokens s' = tokens ?r
        \<and> tokenIndex ?r \<le> tokenIndex s' \<and> resultCode s' = resultCode ?r @ out"
        using Suc.prems i2 by (intro Suc.IH) auto
      then obtain s' out' where s': "processProps_loop X n ?r = Done s'" "tokens s' = tokens ?r"
        "tokenIndex ?r \<le> tokenIndex s'" "resultCode s' = resultCode ?r @ out'"
        by blast
      have "processProps_loop X (Suc n) s = Done s'"
        unfolding processProps_loop_string[OF ct assign cv False] using s'(1) by simp
      with s' show ?thesis by auto
    qed
  next
    case bare
    then have ct: "currentToken s = Some (tokens s ! tokenIndex s)"
      by (simp add: currentToken_def matches1_def)
    let ?r = "s\<lparr>resultCode := resultCode s @ tokenText (code s) (tokens s ! tokenIndex s) @ '': true,'',
                     tokenIndex := tokenIndex s + 1\<rparr>"
    from bare have "tokenIndex s < length (tokens s)" by (simp add: matches1_def)
    then have "\<exists>s' out. processProps_loop X n ?r = Done s' \<and> tokens s' = tokens ?r
        \<and> tokenIndex ?r \<le> tokenIndex s' \<and> resultCode s' = resultCode ?r @ out"
      using Suc.prems by (intro Suc.IH) auto
    then obtain s' out' where s': "processProps_loop X n ?r = Done s'" "tokens s' = tokens ?r"
        "tokenIndex ?r \<le> tokenIndex s'" "resultCode s' = resultCode ?r @ out'"
      by blast
    have "processProps_loop X (Suc n) s = Done s'"
      unfolding processProps_loop_bare[OF ct bare(2,1)] using s'(1) by simp
    with s' show ?thesis by auto
  next
    case spread
    let ?q = "replaceToken [] s"
    obtain q' out where q: "processBalancedCode X ?q = Done q'" "tokens q' = tokens ?q"
        "tokenIndex ?q \<le> tokenIndex q'" "resultCode q' = resultCode ?q @ out"
      using coop by (rule cooperativeD)
    let ?r = "appendCode '','' (replaceToken [] q')"
    from spread have "tokenIndex s < length (tokens s)" by (simp add: matches1_def)
    then have "\<exists>s' out. processProps_loop X n ?r = Done s' \<and> tokens s' = tokens ?r
        \<and> tokenIndex ?r \<le> tokenIndex s' \<and> resultCode s' = resultCode ?r @ out"
      using Suc.prems q by (intro Suc.IH) (auto simp: replaceToken_def appendCode_def)
    then obtain s' out' where s': "processProps_loop X n ?r = Done s'" "tokens s' = tokens ?r"
        "tokenIndex ?r \<le> tokenIndex s'" "resultCode s' = resultCode ?r @ out'"
      by blast
    have "processProps_loop X (Suc n) s = Done s'"
      using spread q(1) s'(1) by simp
    with s' q show ?thesis by (auto simp: replaceToken_def appendCode_def)
  next
    case stop
    then show ?thesis by simp
  qed
qed


lemma getFilenameVarName_fields [simp]:
  "tokens (snd (getFilenameVarName X s)) = tokens s"
  "tokenIndex (snd (getFilenameVarName X s)) = tokenIndex s"
  "resultCode (snd (getFilenameVarName X s)) = resultCode s"
  "code (snd (getFilenameVarName X s)) = code s"
  by (simp_all add: getFilenameVarName_def split: option.splits prod.splits)

lemma getFilenameVarName_line_fields:
  "fst (getFilenameVarName X (s\<lparr>lastIndex := a, lastLineNumber := b\<rparr>))
     = fst (getFilenameVarName X s)"
  by (simp add: getFilenameVarName_def split: option.splits prod.splits)

lemma getFilenameVarName_allocated:
  "filenameVarName (snd (getFilenameVarName X s)) = Some (fst (getFilenameVarName X s))"
  by (auto simp: getFilenameVarName_def split: option.splits prod.splits)

lemma matches1_fields:
  "tokens s' = tokens s \<Longrightarrow> tokenIndex s' = tokenIndex s \<Longrightarrow> matches1 s' t = matches1 s t"
  by (simp add: matches1_def)

lemma copyToBraceR_total:
  "length (tokens q) - tokenIndex q < n \<Longrightarrow>
     \<exists>q' out. copyToBraceR n q = Done q' \<and> tokens q' = tokens q \<and> tokenIndex q \<le> tokenIndex q'
        \<and> resultCode q' = resultCode q @ out"
proof (induction n arbitrary: q)
  case 0
  then show ?case by simp
next
  case (Suc n)
  show ?case
  proof (cases "matches1 q tt_braceR \<or> length (tokens q) \<le> tokenIndex q")
    case True
    then show ?thesis by simp
  next
    case False
    then have ct: "currentToken q = Some (tokens q ! tokenIndex q)"
      by (simp add: currentToken_def)
    let ?r = "q\<lparr>resultCode := resultCode q @ tokenText (code q) (tokens q ! tokenIndex q),
               tokenIndex := tokenIndex q + 1\<rparr>"
    have "\<exists>q' out. copyToBraceR n ?r = Done q' \<and> tokens q' = tokens ?r
        \<and> tokenIndex ?r \<le> tokenIndex q' \<and> resultCode q' = resultCode ?r @ out"
      using Suc.prems False by (intro Suc.IH) auto
    then obtain q' out where q': "copyToBraceR n ?r = Done q'" "tokens q' = tokens ?r"
      "tokenIndex ?r \<le> tokenIndex q'" "resultCode q' = resultCode ?r @ out"
      by blast
    have "copyToBraceR (Suc n) q = Done q'"
      using False q'(1) by (simp add: copyToken_Some[OF ct])
    with q' show ?thesis by auto
  qed
qed

lemma exampleCollaborators_cooperative:
  "cooperative (processBalancedCode exampleCollaborators)"
proof -
  have "\<exists>q' out. copyToBraceR (Suc (length (tokens q))) q = Done q' \<and> tokens q' = tokens q
        \<and> tokenIndex q \<le> tokenIndex q' \<and> resultCode q' = resultCode q @ out"
    for q :: "unit state"
    by (rule copyToBraceR_total) simp
  then show ?thesis
    by (simp add: cooperative_def exampleCollaborators_def del: copyToBraceR.simps)
qed

text \<open>
  C2: with a cooperative \<^verbatim>\<open>processBalancedCode\<close>, a token buffer that ends with the
  end-of-file token, a consistent line cursor that is not past the offset of the element's
  first token, and fuel for the tokens that are left, \<^verbatim>\<open>processProps\<close> returns, and what
  it has appended to the emitted code is \<^verbatim>\<open>, {\<close>, the attributes (nothing when the tag has
  no attribute), the debug props
  \<^verbatim>\<open>__self: this, __source: {fileName: F, lineNumber: N}\<close> and \<^verbatim>\<open>}\<close>, where \<open>N\<close> is one more
  than the number of newlines before the offset of the first token and \<open>F\<close> is the
  file-name variable: the one already allocated, or else the name that
  \<^verbatim>\<open>claimFreeName\<close> returns for \<^verbatim>\<open>_jsxFileName\<close>, which is then kept.
\<close>

theorem processProps_emits_object_with_debug_props:
  assumes "cooperative (processBalancedCode X)" and "endsWithEof (tokens s)"
    and "lineCursorOk s" and "lastIndex s \<le> firstTokenStart"
    and "length (tokens s) - tokenIndex s < fuel"
  shows "\<exists>s' attrs. processProps X fuel firstTokenStart s = Done s'
      \<and> resultCode s'
          = resultCode s @ '', {'' @ attrs
              @ ''__self: this, __source: {fileName: '' @ fst (getFilenameVarName X s)
              @ '', lineNumber: ''
              @ numberToString (1 + count_list (take firstTokenStart (code s)) newline) @ ''}}''
      \<and> (\<not> matches1 s tt_jsxName \<and> \<not> matches1 s tt_braceL \<longrightarrow> attrs = [])
      \<and> fst (getFilenameVarName X s)
          = (case filenameVarName s of
               None \<Rightarrow> fst (claimFreeName X ''_jsxFileName'' (nameManager s))
             | Some v \<Rightarrow> if v = [] then fst (claimFreeName X ''_jsxFileName'' (nameManager s)) else v)
      \<and> filenameVarName (snd (getFilenameVarName X s)) = Some (fst (getFilenameVarName X s))"
    (is "\<exists>s' attrs. ?P s' attrs")
proof -
  define N where "N = 1 + count_list (take firstTokenStart (code s)) newline"
  define s1 where "s1 = s\<lparr>lastIndex := min firstTokenStart (length (code s)), lastLineNumber := N\<rparr>"
  define v where "v = fst (getFilenameVarName X s)"
  define s2 where "s2 = snd (getFilenameVarName X s1)"
  have ln: "getLineNumberForIndex firstTokenStart s = (N, s1)"
    using assms(3,4) by (simp add: getLineNumberForIndex_result N_def s1_def)
  have fn: "getFilenameVarName X s1 = (v, s2)"
    by (simp add: v_def s2_def s1_def getFilenameVarName_line_fields prod_eq_iff)
  have s2: "tokens s2 = tokens s" "tokenIndex s2 = tokenIndex s" "resultCode s2 = resultCode s"
    by (simp_all add: s2_def s1_def)
  have name: "v = (case filenameVarName s of
               None \<Rightarrow> fst (claimFreeName X ''_jsxFileName'' (nameManager s))
             | Some w \<Rightarrow> if w = [] then fst (claimFreeName X ''_jsxFileName'' (nameManager s)) else w)"
    by (simp add: v_def getFilenameVarName_def split: option.splits prod.splits)
  have m: "matches1 s2 t = matches1 s t" for t
    using s2(1,2) by (rule matches1_fields)
  show ?thesis
  proof (cases "\<not> matches1 s tt_jsxName \<and> \<not> matches1 s tt_braceL")
    case True
    then have "processProps X fuel firstTokenStart s
        = Done (appendCode ('', {'' @ devProps v N @ ''}'') s2)"
      by (simp add: processProps_def ln fn m)
    moreover have "resultCode (appendCode ('', {'' @ devProps v N @ ''}'') s2)
        = resultCode s @ '', {'' @ [] @ ''__self: this, __source: {fileName: '' @ v
              @ '', lineNumber: '' @ numberToString N @ ''}}''"
      by (simp add: appendCode_def devProps_def s2)
    ultimately have "?P (appendCode ('', {'' @ devProps v N @ ''}'') s2) []"
      using name True getFilenameVarName_allocated[of X s] by (simp add: v_def N_def)
    then show ?thesis by blast
  next
    case False
    let ?q = "appendCode '', {'' s2"
    have "\<exists>s' out. processProps_loop X fuel ?q = Done s' \<and> tokens s' = tokens ?q
        \<and> tokenIndex ?q \<le> tokenIndex s' \<and> resultCode s' = resultCode ?q @ out"
      using assms(2,5) s2 by (intro processProps_loop_total[OF assms(1)]) (simp_all add: appendCode_def)
    then obtain s3 out where s3: "processProps_loop X fuel ?q = Done s3"
      "resultCode s3 = resultCode ?q @ out"
      by blast
    from False have "processProps X fuel firstTokenStart s
        = Done (appendCode ('' '' @ devProps v N @ ''}'') s3)"
      by (auto simp: processProps_def ln fn m s3(1))
    moreover have "resultCode (appendCode ('' '' @ devProps v N @ ''}'') s3)
        = resultCode s @ '', {'' @ (out @ '' '') @ ''__self: this, __source: {fileName: '' @ v
              @ '', lineNumber: '' @ numberToString N @ ''}}''"
      by (simp add: appendCode_def devProps_def s2 s3(2))
    ultimately have "?P (appendCode ('' '' @ devProps v N @ ''}'') s3) (out @ '' '')"
      using name False getFilenameVarName_allocated[of X s] by (simp add: v_def N_def)
    then show ?thesis by blast
  qed
qed

theorem processProps_emits_object_with_debug_props_witness:
  "processProps exampleCollaborators 20 4 (example_no_attributes\<lparr>tokenIndex := 6\<rparr>)
     = Done (example_no_attributes
        \<lparr>resultCode := '', {__self: this, __source: {fileName: _jsxFileName, lineNumber: 2}}'',
         tokenIndex := 6, lastLineNumber := 2, lastIndex := 4,
         filenameVarName := Some ''_jsxFileName''\<rparr>)
   \<and> processProps exampleCollaborators 20 0 (example_attributes\<lparr>tokenIndex := 2\<rparr>)
     = Done (example_attributes
        \<lparr>resultCode := '', {'data-x': \"a-b\",bar: y,baz: true, __self: this, __source: {fileName: _jsxFileName, lineNumber: 1}}'',
         tokenIndex := 11, filenameVarName := Some ''_jsxFileName''\<rparr>)"
proof -
  note t = processProps_emits_object_with_debug_props[OF exampleCollaborators_cooperative]
  let ?a = "example_no_attributes\<lparr>tokenIndex := 6\<rparr>"
  let ?a' = "example_no_attributes
        \<lparr>resultCode := '', {__self: this, __source: {fileName: _jsxFileName, lineNumber: 2}}'',
         tokenIndex := 6, lastLineNumber := 2, lastIndex := 4,
         filenameVarName := Some ''_jsxFileName''\<rparr>"
  have a: "endsWithEof (tokens ?a)" "lineCursorOk ?a" "lastIndex ?a \<le> 4"
    "length (tokens ?a) - tokenIndex ?a < 20"
    "\<not> matches1 ?a tt_jsxName" "\<not> matches1 ?a tt_braceL"
    by code_simp+
  obtain s' attrs where 1: "processProps exampleCollaborators 20 4 ?a = Done s'"
    "resultCode s' = resultCode ?a @ '', {'' @ attrs
        @ ''__self: this, __source: {fileName: '' @ fst (getFilenameVarName exampleCollaborators ?a)
        @ '', lineNumber: ''
        @ numberToString (1 + count_list (take 4 (code ?a)) newline) @ ''}}''"
    "attrs = []"
    using t[OF a(1,2,3,4)] a(5,6) by blast
  have "processProps exampleCollaborators 20 4 ?a = Done ?a'"
    by code_simp
  moreover
  let ?b = "example_attributes\<lparr>tokenIndex := 2\<rparr>"
  have b: "endsWithEof (tokens ?b)" "lineCursorOk ?b" "lastIndex ?b \<le> 0"
    "length (tokens ?b) - tokenIndex ?b < 20"
    by code_simp+
  obtain s'' where 2: "processProps exampleCollaborators 20 0 ?b = Done s''"
    using t[OF b(1,2,3,4)] by blast
  have "processProps exampleCollaborators 20 0 ?b
     = Done (example_attributes
        \<lparr>resultCode := '', {'data-x': \"a-b\",bar: y,baz: true, __self: this, __source: {fileName: _jsxFileName, lineNumber: 1}}'',
         tokenIndex := 11, filenameVarName := Some ''_jsxFileName''\<rparr>)"
    by code_simp
  ultimately show ?thesis by blast
qed

section \<open>The errors of the transformer\<close>







lemma tokens_replaceToken [simp]: "tokens (replaceToken x s) = tokens s"
  by (simp add: replaceToken_def)

lemma tokens_appendCode [simp]: "tokens (appendCode x s) = tokens s"
  by (simp add: appendCode_def)

lemma tokenIndex_appendCode [simp]: "tokenIndex (appendCode x s) = tokenIndex s"
  by (simp add: appendCode_def)

lemma tokenIndex_replaceToken [simp]: "tokenIndex (replaceToken x s) = tokenIndex s + 1"
  by (simp add: replaceToken_def)




lemma getLineNumberForIndex_fields [simp]:
  "tokens (snd (getLineNumberForIndex i s)) = tokens s"
  "tokenIndex (snd (getLineNumberForIndex i s)) = tokenIndex s"
  by (simp_all add: getLineNumberForIndex_def split: prod.splits)



















section \<open>The name test on any code unit\<close>

text \<open>
  The tables of the lower-case forms and of the letters are compared by computation: every
  code unit that \<^verbatim>\<open>toLowerCase\<close> changes is an upper-case letter, a title-case letter, a
  Roman numeral or a circled capital letter.
\<close>

lemma subRange_sound:
  assumes "subRange r r'" "inRange r c"
  shows "inRange r' c"
proof -
  obtain lo hi st where r: "r = (lo, hi, st)" by (cases r) auto
  obtain lo' hi' st' where r': "r' = (lo', hi', st')" by (cases r') auto
  from assms have a: "lo' \<le> lo" "hi \<le> hi'" "st' dvd (lo - lo')" "lo = hi \<or> st' dvd st"
    "lo \<le> c" "c \<le> hi" "st dvd (c - lo)"
    by (auto simp: r r' mod_eq_0_iff_dvd)
  have "st' dvd (c - lo)"
  proof (cases "lo = hi")
    case True
    with a have "c = lo" by simp
    then show ?thesis by simp
  next
    case False
    with a have "st' dvd st" by simp
    from this a(7) show ?thesis by (rule dvd_trans)
  qed
  from this a(3) have "st' dvd ((c - lo) + (lo - lo'))" by (rule dvd_add)
  moreover have "(c - lo) + (lo - lo') = c - lo'" using a by simp
  ultimately have "st' dvd (c - lo')" by simp
  with a show ?thesis by (simp add: r' mod_eq_0_iff_dvd)
qed

lemma lookupLowerCase_Some:
  "lookupLowerCase rs c = Some l \<Longrightarrow>
     \<exists>lo hi step lower. (lo, hi, step, lower) \<in> set rs \<and> inRange (lo, hi, step) c"
proof (induction rs)
  case Nil
  then show ?case by simp
next
  case (Cons r rs)
  obtain a b st t where r: "r = (a, b, st, t)" by (cases r) auto
  show ?case
  proof (cases "inRange (a, b, st) c")
    case True
    then show ?thesis unfolding r by (intro exI[of _ a] exI[of _ b] exI[of _ st] exI[of _ t]) simp
  next
    case False
    with Cons.prems have "lookupLowerCase rs c = Some l"
      by (simp add: r del: inRange.simps)
    from Cons.IH[OF this] obtain a' b' st' t' where
      "(a', b', st', t') \<in> set rs" "inRange (a', b', st') c"
      by blast
    then show ?thesis
      by (intro exI[of _ a'] exI[of _ b'] exI[of _ st'] exI[of _ t']) (simp del: inRange.simps)
  qed
qed

lemma coveredBy_sound:
  "coveredBy es rs \<Longrightarrow> (lo, hi, step, lower) \<in> set es \<Longrightarrow>
     \<exists>r\<in>set rs. subRange (lo, hi, step) r"
proof (induction es rs rule: coveredBy.induct)
  case (1 rs)
  then show ?case by simp
next
  case (2 e es)
  then show ?case by simp
next
  case (3 a b st t es r rs)
  show ?case
  proof (cases "subRange (a, b, st) r")
    case True
    with 3 show ?thesis by (auto simp del: subRange.simps)
  next
    case False
    with 3 show ?thesis by (auto simp del: subRange.simps)
  qed
qed

lemma lowerCase_ranges_covered:
  "coveredBy (lowerCaseLatin1 @ lowerCaseBeyondLatin1)
     (upperCaseLetterRanges @ titleCaseLetterRanges @ otherUpperCaseRanges)"
  by (simp add: lowerCaseLatin1_def lowerCaseBeyondLatin1_def upperCaseLetterRanges_def
      titleCaseLetterRanges_def otherUpperCaseRanges_def)

lemma toLowerCase_wide_moves_upper_case_only:
  assumes "toLowerCase_wide c \<noteq> [c]"
  shows "isUpperCaseLetter_wide c \<or> isTitleCaseLetter_wide c \<or> isOtherUpperCase_wide c"
proof (cases "c = 0x0130")
  case True
  have "isUpperCaseLetter_wide 0x0130"
    by (simp add: isUpperCaseLetter_wide_def upperCaseLetterRanges_def)
  with True show ?thesis by simp
next
  case False
  with assms obtain l where "lookupLowerCase (lowerCaseLatin1 @ lowerCaseBeyondLatin1) c = Some l"
    by (auto simp: toLowerCase_wide_def split: option.splits)
  from lookupLowerCase_Some[OF this] obtain a b st t where
    m: "(a, b, st, t) \<in> set (lowerCaseLatin1 @ lowerCaseBeyondLatin1)" "inRange (a, b, st) c"
    by blast
  from coveredBy_sound[OF lowerCase_ranges_covered m(1)]
  obtain r where r: "r \<in> set (upperCaseLetterRanges @ titleCaseLetterRanges @ otherUpperCaseRanges)"
    "subRange (a, b, st) r"
    by blast
  from subRange_sound[OF r(2) m(2)] have "inRange r c" .
  with r(1) show ?thesis
    by (auto simp: isUpperCaseLetter_wide_def isTitleCaseLetter_wide_def isOtherUpperCase_wide_def
        list_ex_iff)
qed

text \<open>
  On the code units below U+0100 the two embeddings of \<^verbatim>\<open>toLowerCase\<close>, of
  \<^verbatim>\<open>startsWithLowerCase\<close> and of \<^verbatim>\<open>processTagIntro\<close> agree.
\<close>

lemma lookupLowerCase_append:
  "lookupLowerCase (rs @ rs') c
     = (case lookupLowerCase rs c of None \<Rightarrow> lookupLowerCase rs' c | Some l \<Rightarrow> Some l)"
  by (induction rs) (auto simp del: inRange.simps)

lemma lookupLowerCase_below:
  "list_all (\<lambda>(lo, hi, step, lower). c < lo) rs \<Longrightarrow> lookupLowerCase rs c = None"
  by (induction rs) auto

lemma lowerCaseBeyondLatin1_above:
  "list_all (\<lambda>(lo, hi, step, lower). 256 \<le> lo) lowerCaseBeyondLatin1"
  by (simp add: lowerCaseBeyondLatin1_def)

lemma toLowerCase_wide_Latin1:
  assumes "n < 256"
  shows "toLowerCase_wide n
      = [if (65 \<le> n \<and> n \<le> 90) \<or> (192 \<le> n \<and> n \<le> 222 \<and> n \<noteq> 215) then n + 32 else n]"
proof -
  have "list_all (\<lambda>(lo, hi, step, lower). n < lo) lowerCaseBeyondLatin1"
    using lowerCaseBeyondLatin1_above assms by (auto simp: list_all_iff)
  then have b: "lookupLowerCase lowerCaseBeyondLatin1 n = None"
    by (rule lookupLowerCase_below)
  have l: "lookupLowerCase lowerCaseLatin1 n
      = (if (65 \<le> n \<and> n \<le> 90) \<or> (192 \<le> n \<and> n \<le> 222 \<and> n \<noteq> 215) then Some (n + 32) else None)"
    by (auto simp: lowerCaseLatin1_def)
  show ?thesis
    using assms by (auto simp: toLowerCase_wide_def lookupLowerCase_append b l)
qed

lemma toLowerCase_wide_of_char:
  "toLowerCase_wide (of_char c) = [of_char (toLowerCase c)]"
proof -
  define n :: nat where "n = of_char c"
  have n: "n < 256" by (simp add: n_def)
  have "(of_char (toLowerCase c) :: nat)
      = (if (65 \<le> n \<and> n \<le> 90) \<or> (192 \<le> n \<and> n \<le> 222 \<and> n \<noteq> 215) then n + 32 else n)"
    using n by (auto simp: toLowerCase_def n_def)
  with toLowerCase_wide_Latin1[OF n] show ?thesis by (simp add: n_def)
qed

lemma startsWithLowerCase_wide_widen:
  "startsWithLowerCase_wide (widen s) = startsWithLowerCase s"
  by (cases s) (auto simp: startsWithLowerCase_wide_def startsWithLowerCase_def widen_def
      toLowerCase_wide_of_char)

lemma matchesAtIndex_wide_list_map:
  "matchesAtIndex_wide_list (map widenToken ts) i ls = matchesAtIndex_list ts i ls"
  by (induction ls arbitrary: i) (auto simp: widenToken_def)

lemma matchesAtIndex_wide_widenState:
  "matchesAtIndex_wide (widenState s) i ls = matchesAtIndex s i ls"
  by (simp add: matchesAtIndex_wide_def matchesAtIndex_def widenState_def
      matchesAtIndex_wide_list_map)

lemma processTagIntro_find_wide_widenState:
  "processTagIntro_find_wide n (widenState s) i = processTagIntro_find n s i"
  by (induction n arbitrary: i) (simp_all add: matchesAtIndex_wide_widenState)

lemma widenState_replaceToken:
  "widenState (replaceToken x s) = replaceToken_wide (widen x) (widenState s)"
  by (simp add: widenState_def replaceToken_def replaceToken_wide_def widen_def)

lemma processTagIntro_loop_wide_widenState:
  assumes "\<And>q. pt (widenState q) = map_result widenState (processToken X q)"
  shows "processTagIntro_loop_wide pt n e (widenState s)
     = map_result widenState (processTagIntro_loop X n e s)"
proof (induction n arbitrary: s)
  case 0
  then show ?case by simp
next
  case (Suc n)
  show ?case
  proof (cases "processToken X s")
    case (Done q)
    with Suc assms[of s] show ?thesis
      by (simp add: currentIndex_wide_def currentIndex_def widenState_def)
  next
    case (Raised e)
    with assms[of s] show ?thesis
      by (simp add: currentIndex_wide_def currentIndex_def widenState_def)
  next
    case OutOfFuel
    with assms[of s] show ?thesis
      by (simp add: currentIndex_wide_def currentIndex_def widenState_def)
  qed
qed

lemma processTagIntro_wide_widenState:
  assumes "\<And>q. pt (widenState q) = map_result widenState (processToken X q)"
  shows "processTagIntro_wide pt n (widenState s) = map_result widenState (processTagIntro X n s)"
proof -
  note loop = processTagIntro_loop_wide_widenState[of pt X, OF assms]
  have i: "currentIndex_wide (widenState s) = currentIndex s"
    by (simp add: currentIndex_wide_def currentIndex_def widenState_def)
  have q: "replaceToken_wide (39 # widen v @ [39]) (widenState s)
      = widenState (replaceToken (squote # v @ [squote]) s)" for v
    by (simp add: widenState_replaceToken widen_def squote_def)
  show ?thesis
  proof (cases "processTagIntro_find n s (currentIndex s + 1)")
    case (Done e)
    show ?thesis
    proof (cases "e = currentIndex s + 1")
      case True
      show ?thesis
      proof (cases "currentToken s")
        case None
        then have "currentToken_wide (widenState s) = None"
          by (simp add: currentToken_wide_def currentToken_def widenState_def split: if_splits)
        with None Done True show ?thesis
          by (simp add: processTagIntro_wide_def processTagIntro_def
              processTagIntro_find_wide_widenState i)
      next
        case (Some t)
        then have ct: "currentToken_wide (widenState s) = Some (widenToken t)"
          by (auto simp: currentToken_wide_def currentToken_def widenState_def split: if_splits)
        have v: "wtok_value (widenToken t) = widen (tok_value t)"
          by (simp add: widenToken_def)
        show ?thesis
        proof (cases "startsWithLowerCase (tok_value t)")
          case (Done b)
          with Some \<open>processTagIntro_find n s (currentIndex s + 1) = Done e\<close> True show ?thesis
            by (simp add: processTagIntro_wide_def processTagIntro_def
                processTagIntro_find_wide_widenState i ct v startsWithLowerCase_wide_widen
                loop q
                del: processTagIntro_loop_wide.simps processTagIntro_loop.simps)
        next
          case (Raised x)
          with Some \<open>processTagIntro_find n s (currentIndex s + 1) = Done e\<close> True show ?thesis
            by (simp add: processTagIntro_wide_def processTagIntro_def
                processTagIntro_find_wide_widenState i ct v startsWithLowerCase_wide_widen)
        next
          case OutOfFuel
          with Some \<open>processTagIntro_find n s (currentIndex s + 1) = Done e\<close> True show ?thesis
            by (simp add: processTagIntro_wide_def processTagIntro_def
                processTagIntro_find_wide_widenState i ct v startsWithLowerCase_wide_widen)
        qed
      qed
    next
      case False
      with Done show ?thesis
        by (simp add: processTagIntro_wide_def processTagIntro_def
            processTagIntro_find_wide_widenState i loop
            del: processTagIntro_loop_wide.simps processTagIntro_loop.simps)
    qed
  next
    case (Raised x)
    then show ?thesis
      by (simp add: processTagIntro_wide_def processTagIntro_def
          processTagIntro_find_wide_widenState i)
  next
    case OutOfFuel
    then show ?thesis
      by (simp add: processTagIntro_wide_def processTagIntro_def
          processTagIntro_find_wide_widenState i)
  qed
qed

lemma processTagIntro_wide_single:
  assumes "currentToken_wide s = Some t" "wtok_value t = c # cs"
    "tagIntroEndsAt_wide s (currentIndex_wide s + 1)"
  shows "processTagIntro_wide pt (Suc n) s =
     (if toLowerCase_wide c = [c]
      then Done (replaceToken_wide ([0x27] @ wtok_value t @ [0x27]) s)
      else andThen (pt s) (processTagIntro_loop_wide pt n (currentIndex_wide s + 1)))"
proof -
  have f: "processTagIntro_find_wide (Suc n) s (currentIndex_wide s + 1)
      = Done (currentIndex_wide s + 1)"
    using assms(3) by (auto simp: tagIntroEndsAt_wide_def)
  have e: "([c] = toLowerCase_wide c) = (toLowerCase_wide c = [c])"
    by auto
  show ?thesis
    unfolding processTagIntro_wide_def f using assms(1,2)
    by (simp add: startsWithLowerCase_wide_def e currentIndex_wide_def replaceToken_wide_def)
qed

text \<open>
  C10, as the specification states it: a name of exactly one token whose first character is
  not an upper-case letter passes the test of \<^verbatim>\<open>startsWithLowerCase\<close> and is quoted. The
  code does not quote the name of the tag \<^verbatim>\<open><\<close>U+01C5\<^verbatim>\<open>x/>\<close>: U+01C5 is a title-case
  letter and not an upper-case letter, \<^verbatim>\<open>toLowerCase\<close> makes it U+01C6, so the test fails
  and the name is handed to \<^verbatim>\<open>processToken\<close> as it is.
\<close>

theorem processTagIntro_leaves_title_case_name_unquoted:
  "\<not> isUpperCaseLetter_wide 0x01C5
   \<and> isTitleCaseLetter_wide 0x01C5
   \<and> toLowerCase_wide 0x01C5 = [0x01C6]
   \<and> startsWithLowerCase_wide [0x01C5, 0x78] = Done False
   \<and> processTagIntro_wide copyTokenIfAny_wide 4 example_title_case
       = Done (example_title_case\<lparr>wresultCode := [0x01C5, 0x78], wtokenIndex := 2\<rparr>)"
proof -
  have 1: "\<not> isUpperCaseLetter_wide 0x01C5"
    by (simp add: isUpperCaseLetter_wide_def upperCaseLetterRanges_def)
  have 2: "isTitleCaseLetter_wide 0x01C5"
    by (simp add: isTitleCaseLetter_wide_def titleCaseLetterRanges_def)
  have 3: "toLowerCase_wide 0x01C5 = [0x01C6]"
    by (simp add: toLowerCase_wide_def lowerCaseLatin1_def lowerCaseBeyondLatin1_def)
  have 4: "startsWithLowerCase_wide [0x01C5, 0x78] = Done False"
    by (simp add: startsWithLowerCase_wide_def 3)
  have n: "(4::nat) = Suc (Suc (Suc (Suc 0)))"
    by simp
  have 5: "processTagIntro_wide copyTokenIfAny_wide 4 example_title_case
       = Done (example_title_case\<lparr>wresultCode := [0x01C5, 0x78], wtokenIndex := 2\<rparr>)"
    unfolding n
    by (simp add: processTagIntro_wide_def example_title_case_def matchesAtIndex_wide_def
        currentIndex_wide_def currentToken_wide_def 4 copyTokenIfAny_wide_def
        replaceToken_wide_def)
  from 1 2 3 4 5 show ?thesis by blast
qed

text \<open>
  C10, amended: a name of exactly one token is replaced by its text between single quotes
  exactly when \<^verbatim>\<open>toLowerCase\<close> keeps its first code unit, and is handed to
  \<^verbatim>\<open>processToken\<close> as it is otherwise. \<^verbatim>\<open>toLowerCase\<close> keeps every code unit that is
  neither an upper-case letter nor a title-case letter nor a Roman numeral or circled capital
  letter; the digits, the underscore and the dollar sign are among them, and
  \<^verbatim>\<open><_Foo/>\<close> becomes a call whose first argument is the string \<^verbatim>\<open>'_Foo'\<close>. On the code
  units below U+0100 the test and \<^verbatim>\<open>processTagIntro\<close> are those of the first embedding.
\<close>

theorem processTagIntro_quotes_name_that_toLowerCase_keeps:
  assumes "currentToken_wide s = Some t" and "wtok_value t = c # cs"
    and "tagIntroEndsAt_wide s (currentIndex_wide s + 1)"
  shows "startsWithLowerCase_wide (wtok_value t) = Done (toLowerCase_wide c = [c])
       \<and> (toLowerCase_wide c = [c] \<longrightarrow>
            processTagIntro_wide pt (Suc n) s
              = Done (replaceToken_wide ([0x27] @ wtok_value t @ [0x27]) s))
       \<and> (toLowerCase_wide c \<noteq> [c] \<longrightarrow>
            processTagIntro_wide pt (Suc n) s
              = andThen (pt s) (processTagIntro_loop_wide pt n (currentIndex_wide s + 1)))
       \<and> (\<not> isUpperCaseLetter_wide c \<and> \<not> isTitleCaseLetter_wide c \<and> \<not> isOtherUpperCase_wide c \<longrightarrow>
            toLowerCase_wide c = [c])
       \<and> list_all (\<lambda>d. toLowerCase_wide d = [d]) (widen ''0123456789_$'')
       \<and> (\<forall>v. startsWithLowerCase_wide (widen v) = startsWithLowerCase v)
       \<and> (\<forall>X q. (\<forall>r. pt (widenState r) = map_result widenState (processToken X r)) \<longrightarrow>
            processTagIntro_wide pt (Suc n) (widenState q)
              = map_result widenState (processTagIntro X (Suc n) q))"
proof -
  have 1: "startsWithLowerCase_wide (wtok_value t) = Done (toLowerCase_wide c = [c])"
    using assms(2) by (auto simp: startsWithLowerCase_wide_def)
  have 4: "\<not> isUpperCaseLetter_wide c \<and> \<not> isTitleCaseLetter_wide c \<and> \<not> isOtherUpperCase_wide c \<longrightarrow>
            toLowerCase_wide c = [c]"
    using toLowerCase_wide_moves_upper_case_only[of c] by blast
  have 5: "list_all (\<lambda>d. toLowerCase_wide d = [d]) (widen ''0123456789_$'')"
    by (simp add: widen_def toLowerCase_wide_Latin1)
  have 6: "processTagIntro_wide pt (Suc n) (widenState q)
      = map_result widenState (processTagIntro X (Suc n) q)"
    if "\<forall>r. pt (widenState r) = map_result widenState (processToken X r)"
    for X :: "'a collaborators" and q
    using that by (intro processTagIntro_wide_widenState) simp
  have 23: "toLowerCase_wide c = [c] \<longrightarrow>
            processTagIntro_wide pt (Suc n) s
              = Done (replaceToken_wide ([0x27] @ wtok_value t @ [0x27]) s)"
    "toLowerCase_wide c \<noteq> [c] \<longrightarrow>
            processTagIntro_wide pt (Suc n) s
              = andThen (pt s) (processTagIntro_loop_wide pt n (currentIndex_wide s + 1))"
    by (simp_all add: processTagIntro_wide_single[OF assms])
  from 1 23 4 5 6 show ?thesis
    by (simp only: startsWithLowerCase_wide_widen simp_thms) blast
qed

theorem processTagIntro_quotes_name_that_toLowerCase_keeps_witness:
  "processTagIntro_wide copyTokenIfAny_wide 9
     (widenState (example_underscore\<lparr>resultCode := ''React.createElement('', tokenIndex := 1\<rparr>))
     = Done (widenState (example_underscore\<lparr>resultCode := ''React.createElement('_Foo'' @ [squote],
               tokenIndex := 2\<rparr>))
   \<and> toLowerCase_wide 0x03B1 = [0x03B1]
   \<and> processJSXTag exampleCollaborators 10 example_underscore
     = Done (example_underscore
        \<lparr>resultCode := ''React.createElement('_Foo', {__self: this, __source: {fileName: _jsxFileName, lineNumber: 1}})'',
         tokenIndex := 4, filenameVarName := Some ''_jsxFileName''\<rparr>)"
proof -
  let ?s = "widenState (example_underscore\<lparr>resultCode := ''React.createElement('', tokenIndex := 1\<rparr>)"
  let ?t = "widenToken (tok tt_jsxName 1 5 ''_Foo'')"
  have h: "currentToken_wide ?s = Some ?t" "wtok_value ?t = 0x5F # widen ''Foo''"
    "tagIntroEndsAt_wide ?s (currentIndex_wide ?s + 1)"
    by (simp_all add: widenState_def widenToken_def widen_def example_underscore_def
        initialState_def tok_def currentToken_wide_def currentIndex_wide_def
        tagIntroEndsAt_wide_def matchesAtIndex_wide_def)
  note t = processTagIntro_quotes_name_that_toLowerCase_keeps[OF h, of copyTokenIfAny_wide 8]
  have k: "toLowerCase_wide 0x5F = [0x5F]"
    by (simp add: toLowerCase_wide_Latin1)
  have r: "replaceToken_wide ([0x27] @ wtok_value ?t @ [0x27]) ?s
       = widenState (example_underscore\<lparr>resultCode := ''React.createElement('_Foo'' @ [squote],
           tokenIndex := 2\<rparr>)"
    by (simp add: widenState_def widenToken_def widen_def example_underscore_def
        initialState_def tok_def replaceToken_wide_def squote_def)
  have n: "Suc 8 = (9::nat)" by simp
  have 1: "processTagIntro_wide copyTokenIfAny_wide 9 ?s
     = Done (widenState (example_underscore\<lparr>resultCode := ''React.createElement('_Foo'' @ [squote],
               tokenIndex := 2\<rparr>))"
    using t[THEN conjunct2, THEN conjunct1] k unfolding r n by simp
  have g: "\<not> isUpperCaseLetter_wide 0x03B1" "\<not> isTitleCaseLetter_wide 0x03B1"
    "\<not> isOtherUpperCase_wide 0x03B1"
    by (simp_all add: isUpperCaseLetter_wide_def upperCaseLetterRanges_def
        isTitleCaseLetter_wide_def titleCaseLetterRanges_def
        isOtherUpperCase_wide_def otherUpperCaseRanges_def)
  let ?a = "widenState (example_underscore\<lparr>tokenIndex := 1\<rparr>)"
  have 2: "toLowerCase_wide 0x03B1 = [0x03B1]"
    using processTagIntro_quotes_name_that_toLowerCase_keeps[
        of "\<lparr>wcode = [], wtokens = [\<lparr>wtok_type = tt_jsxName, wtok_start = 0, wtok_end = 1,
              wtok_value = [0x03B1]\<rparr>, \<lparr>wtok_type = tt_jsxTagEnd, wtok_start = 1, wtok_end = 2,
              wtok_value = []\<rparr>], wresultCode = [], wtokenIndex = 0\<rparr>"
           "\<lparr>wtok_type = tt_jsxName, wtok_start = 0, wtok_end = 1, wtok_value = [0x03B1]\<rparr>"
           "0x03B1" "[]" copyTokenIfAny_wide 0,
        THEN conjunct2, THEN conjunct2, THEN conjunct2, THEN conjunct1] g
    by (simp add: currentToken_wide_def currentIndex_wide_def tagIntroEndsAt_wide_def
        matchesAtIndex_wide_def)
  have 3: "processJSXTag exampleCollaborators 10 example_underscore
     = Done (example_underscore
        \<lparr>resultCode := ''React.createElement('_Foo', {__self: this, __source: {fileName: _jsxFileName, lineNumber: 1}})'',
         tokenIndex := 4, filenameVarName := Some ''_jsxFileName''\<rparr>)"
    by code_simp
  from 1 2 3 show ?thesis by blast
qed

end
